theory Spec2Isabelle
  imports Main "HOL-Library.Word" "HOL-Library.Multiset"
begin

section \<open>Palette construction of convimg (src/palette.c)\<close>

text \<open>
  A shallow embedding of \<^verbatim>\<open>src/palette.c\<close>. The C functions mutate a
  \<^verbatim>\<open>palette_t\<close> through a pointer and return an \<^verbatim>\<open>int\<close>; here
  every function takes the palette (and the state of the outside world it touches) and
  returns the updated state together with a status. The collaborators that live outside
  \<^verbatim>\<open>palette.c\<close> (the colour converter, the image loader, libimagequant)
  are parameters, collected in the record \<open>env\<close>.
\<close>

subsection \<open>Data model\<close>

text \<open>
  The structures are declared in headers that are not part of the sources. Each record
  has the fields \<^verbatim>\<open>palette.c\<close> reads or writes, under the names it uses.
\<close>

type_synonym uint8_t = "8 word"
type_synonym uint16_t = "16 word"

text \<open>\<^verbatim>\<open>liq_color\<close> of libimagequant: four bytes \<^verbatim>\<open>r, g, b, a\<close>.\<close>

record liq_color =
  rgb_r :: uint8_t
  rgb_g :: uint8_t
  rgb_b :: uint8_t
  rgb_a :: uint8_t

text \<open>
  Modelled from the spec: \<^verbatim>\<open>color_t\<close> is declared in a header that is not part of
  the sources. \<^verbatim>\<open>palette.c\<close> reads and writes its field \<^verbatim>\<open>rgb\<close>; the
  spec gives a colour a second component, its mode-converted packed form, here
  \<open>target\<close>.
\<close>

record color_t =
  rgb :: liq_color
  target :: uint16_t

text \<open>
  Modelled from the spec: the enumeration \<^verbatim>\<open>color_mode_t\<close> is declared in a header
  that is not part of the sources. \<^verbatim>\<open>palette.c\<close> names one of its values,
  \<^verbatim>\<open>COLOR_MODE_1555_GBGR\<close>; every other bit layout is \<open>COLOR_MODE_OTHER n\<close>.
\<close>

datatype color_mode_t = COLOR_MODE_1555_GBGR | COLOR_MODE_OTHER nat

text \<open>
  \<^verbatim>\<open>palette_entry_t\<close>. The C field \<^verbatim>\<open>index\<close> is an
  \<^verbatim>\<open>unsigned int\<close>; every use of it as a subscript is bounds-checked in the
  model before anything else looks at it, so a natural number is enough.
\<close>

record palette_entry_t =
  color :: color_t
  index :: nat
  exact :: bool
  valid :: bool

text \<open>
  \<^verbatim>\<open>image_t\<close>: a \<^verbatim>\<open>char *\<close> is a string or \<^verbatim>\<open>NULL\<close>.
  The decoded pixels only live between \<^verbatim>\<open>image_load\<close> and \<^verbatim>\<open>free\<close>
  inside one loop iteration and are not part of the record.
\<close>

record image_t =
  path :: "string option"
  name :: "string option"

text \<open>
  Modelled from the spec: \<^verbatim>\<open>PALETTE_MAX_ENTRIES\<close> comes from \<^verbatim>\<open>palette.h\<close>,
  which is not part of the sources; the spec fixes the table at 256 slots and both builtin
  tables hold 256 triplets.
\<close>

definition PALETTE_MAX_ENTRIES :: nat where
  "PALETTE_MAX_ENTRIES = 256"

text \<open>
  \<^verbatim>\<open>palette_t\<close>. The array \<^verbatim>\<open>entries[PALETTE_MAX_ENTRIES]\<close> is a function
  from subscripts to entries; the model checks every subscript against
  \<open>PALETTE_MAX_ENTRIES\<close> and never reads the function outside the array.
  \<^verbatim>\<open>fixedEntries\<close> with \<^verbatim>\<open>numFixedEntries\<close> and \<^verbatim>\<open>images\<close> with
  \<^verbatim>\<open>numImages\<close> are lists (the counters are the lengths). The name is taken to
  be set: \<^verbatim>\<open>palette_generate\<close> hands it to \<^verbatim>\<open>strcmp\<close> unchecked.
\<close>

record palette_t =
  palette_name :: string
  images :: "image_t list"
  maxEntries :: int
  entries :: "nat \<Rightarrow> palette_entry_t"
  numEntries :: int
  fixedEntries :: "palette_entry_t list"
  mode :: color_mode_t
  quantizeSpeed :: int
  automatic :: bool

definition numFixedEntries :: "palette_t \<Rightarrow> int" where
  "numFixedEntries p = int (length (fixedEntries p))"

definition numImages :: "palette_t \<Rightarrow> int" where
  "numImages p = int (length (images p))"

text \<open>
  The results. Each \<^verbatim>\<open>return 1\<close> of the source is a \<open>Failure\<close> of the kind
  its log message names; a read or write outside an array and a read through a null
  pointer are \<open>Crash\<close>es, where the C program has no defined behaviour.
\<close>

datatype error =
  AutomaticBuildFailure | TooManyFixedColors | ImageLoadFailure | QuantizeFailure | EmptyPalette

datatype fault = NullDereference | OutOfBounds

datatype status = Success | Failure error | Crash fault

text \<open>The value the C function returns; a crash returns nothing.\<close>

fun return_code :: "status \<Rightarrow> int option" where
  "return_code Success = Some 0"
| "return_code (Failure e) = Some 1"
| "return_code (Crash f) = None"

subsection \<open>The outside world\<close>

text \<open>
  libimagequant, as \<^verbatim>\<open>palette.c\<close> uses it. An attribute object records what
  \<^verbatim>\<open>liq_set_speed\<close> and \<^verbatim>\<open>liq_set_max_colors\<close> were given; a histogram
  records the fixed colours and the pixel rows added to it, in order.
\<close>

record liq_attr =
  attr_speed :: int
  attr_max_colors :: int

record liq_histogram =
  hist_fixed :: "liq_color list"
  hist_rows :: "liq_color list list"

datatype liq_handle = LiqAttr | LiqHistogram | LiqImage | LiqResult

text \<open>
  The collaborators: \<^verbatim>\<open>color_convert\<close> (it updates a colour in place, so it maps
  the colour it is given to the colour it leaves), \<^verbatim>\<open>image_load\<close> (the decoded
  RGBA pixels, \<^verbatim>\<open>width * height\<close> of them, or \<open>None\<close> when it returns
  non-zero), \<^verbatim>\<open>liq_histogram_quantize\<close> followed by \<^verbatim>\<open>liq_get_palette\<close>
  (the result palette, or \<open>None\<close> when the error is not \<^verbatim>\<open>LIQ_OK\<close>),
  \<^verbatim>\<open>strings_basename\<close>, and the contents an uninitialised local
  \<^verbatim>\<open>color_t\<close> happens to hold.
\<close>

record env =
  color_convert :: "color_mode_t \<Rightarrow> color_t \<Rightarrow> color_t"
  image_load :: "image_t \<Rightarrow> liq_color list option"
  liq_quantize :: "liq_histogram \<Rightarrow> liq_attr \<Rightarrow> liq_color list option"
  strings_basename :: "string \<Rightarrow> string"
  uninit_color :: color_t

text \<open>
  What the run leaves behind besides the palette: the libimagequant objects that were
  created and not yet destroyed, the images handed to \<^verbatim>\<open>image_load\<close>, the
  histograms handed to the quantizer, and the two numbers of the final
  \<^verbatim>\<open>LL_INFO\<close> line (colours, unused).
\<close>

record world =
  live :: "liq_handle list"
  loads :: "image_t list"
  quantized :: "liq_histogram list"
  reported :: "(int \<times> int) list"

subsection \<open>Builtin palettes\<close>

definition palette_xlibc :: "uint8_t list" where
  "palette_xlibc =
    [
     0x00, 0x00, 0x00,  0x00, 0x20, 0x08,  0x00, 0x41, 0x10,  0x00, 0x61, 0x18,
     0x00, 0x82, 0x21,  0x00, 0xA2, 0x29,  0x00, 0xC3, 0x31,  0x00, 0xE3, 0x39,
     0x08, 0x00, 0x42,  0x08, 0x20, 0x4A,  0x08, 0x41, 0x52,  0x08, 0x61, 0x5A,
     0x08, 0x82, 0x63,  0x08, 0xA2, 0x6B,  0x08, 0xC3, 0x73,  0x08, 0xE3, 0x7B,
     0x10, 0x00, 0x84,  0x10, 0x20, 0x8C,  0x10, 0x41, 0x94,  0x10, 0x61, 0x9C,
     0x10, 0x82, 0xA5,  0x10, 0xA2, 0xAD,  0x10, 0xC3, 0xB5,  0x10, 0xE3, 0xBD,
     0x18, 0x00, 0xC6,  0x18, 0x20, 0xCE,  0x18, 0x41, 0xD6,  0x18, 0x61, 0xDE,
     0x18, 0x82, 0xE7,  0x18, 0xA2, 0xEF,  0x18, 0xC3, 0xF7,  0x18, 0xE3, 0xFF,
     0x21, 0x04, 0x00,  0x21, 0x24, 0x08,  0x21, 0x45, 0x10,  0x21, 0x65, 0x18,
     0x21, 0x86, 0x21,  0x21, 0xA6, 0x29,  0x21, 0xC7, 0x31,  0x21, 0xE7, 0x39,
     0x29, 0x04, 0x42,  0x29, 0x24, 0x4A,  0x29, 0x45, 0x52,  0x29, 0x65, 0x5A,
     0x29, 0x86, 0x63,  0x29, 0xA6, 0x6B,  0x29, 0xC7, 0x73,  0x29, 0xE7, 0x7B,
     0x31, 0x04, 0x84,  0x31, 0x24, 0x8C,  0x31, 0x45, 0x94,  0x31, 0x65, 0x9C,
     0x31, 0x86, 0xA5,  0x31, 0xA6, 0xAD,  0x31, 0xC7, 0xB5,  0x31, 0xE7, 0xBD,
     0x39, 0x04, 0xC6,  0x39, 0x24, 0xCE,  0x39, 0x45, 0xD6,  0x39, 0x65, 0xDE,
     0x39, 0x86, 0xE7,  0x39, 0xA6, 0xEF,  0x39, 0xC7, 0xF7,  0x39, 0xE7, 0xFF,
     0x42, 0x08, 0x00,  0x42, 0x28, 0x08,  0x42, 0x49, 0x10,  0x42, 0x69, 0x18,
     0x42, 0x8A, 0x21,  0x42, 0xAA, 0x29,  0x42, 0xCB, 0x31,  0x42, 0xEB, 0x39,
     0x4A, 0x08, 0x42,  0x4A, 0x28, 0x4A,  0x4A, 0x49, 0x52,  0x4A, 0x69, 0x5A,
     0x4A, 0x8A, 0x63,  0x4A, 0xAA, 0x6B,  0x4A, 0xCB, 0x73,  0x4A, 0xEB, 0x7B,
     0x52, 0x08, 0x84,  0x52, 0x28, 0x8C,  0x52, 0x49, 0x94,  0x52, 0x69, 0x9C,
     0x52, 0x8A, 0xA5,  0x52, 0xAA, 0xAD,  0x52, 0xCB, 0xB5,  0x52, 0xEB, 0xBD,
     0x5A, 0x08, 0xC6,  0x5A, 0x28, 0xCE,  0x5A, 0x49, 0xD6,  0x5A, 0x69, 0xDE,
     0x5A, 0x8A, 0xE7,  0x5A, 0xAA, 0xEF,  0x5A, 0xCB, 0xF7,  0x5A, 0xEB, 0xFF,
     0x63, 0x0C, 0x00,  0x63, 0x2C, 0x08,  0x63, 0x4D, 0x10,  0x63, 0x6D, 0x18,
     0x63, 0x8E, 0x21,  0x63, 0xAE, 0x29,  0x63, 0xCF, 0x31,  0x63, 0xEF, 0x39,
     0x6B, 0x0C, 0x42,  0x6B, 0x2C, 0x4A,  0x6B, 0x4D, 0x52,  0x6B, 0x6D, 0x5A,
     0x6B, 0x8E, 0x63,  0x6B, 0xAE, 0x6B,  0x6B, 0xCF, 0x73,  0x6B, 0xEF, 0x7B,
     0x73, 0x0C, 0x84,  0x73, 0x2C, 0x8C,  0x73, 0x4D, 0x94,  0x73, 0x6D, 0x9C,
     0x73, 0x8E, 0xA5,  0x73, 0xAE, 0xAD,  0x73, 0xCF, 0xB5,  0x73, 0xEF, 0xBD,
     0x7B, 0x0C, 0xC6,  0x7B, 0x2C, 0xCE,  0x7B, 0x4D, 0xD6,  0x7B, 0x6D, 0xDE,
     0x7B, 0x8E, 0xE7,  0x7B, 0xAE, 0xEF,  0x7B, 0xCF, 0xF7,  0x7B, 0xEF, 0xFF,
     0x84, 0x10, 0x00,  0x84, 0x30, 0x08,  0x84, 0x51, 0x10,  0x84, 0x71, 0x18,
     0x84, 0x92, 0x21,  0x84, 0xB2, 0x29,  0x84, 0xD3, 0x31,  0x84, 0xF3, 0x39,
     0x8C, 0x10, 0x42,  0x8C, 0x30, 0x4A,  0x8C, 0x51, 0x52,  0x8C, 0x71, 0x5A,
     0x8C, 0x92, 0x63,  0x8C, 0xB2, 0x6B,  0x8C, 0xD3, 0x73,  0x8C, 0xF3, 0x7B,
     0x94, 0x10, 0x84,  0x94, 0x30, 0x8C,  0x94, 0x51, 0x94,  0x94, 0x71, 0x9C,
     0x94, 0x92, 0xA5,  0x94, 0xB2, 0xAD,  0x94, 0xD3, 0xB5,  0x94, 0xF3, 0xBD,
     0x9C, 0x10, 0xC6,  0x9C, 0x30, 0xCE,  0x9C, 0x51, 0xD6,  0x9C, 0x71, 0xDE,
     0x9C, 0x92, 0xE7,  0x9C, 0xB2, 0xEF,  0x9C, 0xD3, 0xF7,  0x9C, 0xF3, 0xFF,
     0xA5, 0x14, 0x00,  0xA5, 0x34, 0x08,  0xA5, 0x55, 0x10,  0xA5, 0x75, 0x18,
     0xA5, 0x96, 0x21,  0xA5, 0xB6, 0x29,  0xA5, 0xD7, 0x31,  0xA5, 0xF7, 0x39,
     0xAD, 0x14, 0x42,  0xAD, 0x34, 0x4A,  0xAD, 0x55, 0x52,  0xAD, 0x75, 0x5A,
     0xAD, 0x96, 0x63,  0xAD, 0xB6, 0x6B,  0xAD, 0xD7, 0x73,  0xAD, 0xF7, 0x7B,
     0xB5, 0x14, 0x84,  0xB5, 0x34, 0x8C,  0xB5, 0x55, 0x94,  0xB5, 0x75, 0x9C,
     0xB5, 0x96, 0xA5,  0xB5, 0xB6, 0xAD,  0xB5, 0xD7, 0xB5,  0xB5, 0xF7, 0xBD,
     0xBD, 0x14, 0xC6,  0xBD, 0x34, 0xCE,  0xBD, 0x55, 0xD6,  0xBD, 0x75, 0xDE,
     0xBD, 0x96, 0xE7,  0xBD, 0xB6, 0xEF,  0xBD, 0xD7, 0xF7,  0xBD, 0xF7, 0xFF,
     0xC6, 0x18, 0x00,  0xC6, 0x38, 0x08,  0xC6, 0x59, 0x10,  0xC6, 0x79, 0x18,
     0xC6, 0x9A, 0x21,  0xC6, 0xBA, 0x29,  0xC6, 0xDB, 0x31,  0xC6, 0xFB, 0x39,
     0xCE, 0x18, 0x42,  0xCE, 0x38, 0x4A,  0xCE, 0x59, 0x52,  0xCE, 0x79, 0x5A,
     0xCE, 0x9A, 0x63,  0xCE, 0xBA, 0x6B,  0xCE, 0xDB, 0x73,  0xCE, 0xFB, 0x7B,
     0xD6, 0x18, 0x84,  0xD6, 0x38, 0x8C,  0xD6, 0x59, 0x94,  0xD6, 0x79, 0x9C,
     0xD6, 0x9A, 0xA5,  0xD6, 0xBA, 0xAD,  0xD6, 0xDB, 0xB5,  0xD6, 0xFB, 0xBD,
     0xDE, 0x18, 0xC6,  0xDE, 0x38, 0xCE,  0xDE, 0x59, 0xD6,  0xDE, 0x79, 0xDE,
     0xDE, 0x9A, 0xE7,  0xDE, 0xBA, 0xEF,  0xDE, 0xDB, 0xF7,  0xDE, 0xFB, 0xFF,
     0xE7, 0x1C, 0x00,  0xE7, 0x3C, 0x08,  0xE7, 0x5D, 0x10,  0xE7, 0x7D, 0x18,
     0xE7, 0x9E, 0x21,  0xE7, 0xBE, 0x29,  0xE7, 0xDF, 0x31,  0xE7, 0xFF, 0x39,
     0xEF, 0x1C, 0x42,  0xEF, 0x3C, 0x4A,  0xEF, 0x5D, 0x52,  0xEF, 0x7D, 0x5A,
     0xEF, 0x9E, 0x63,  0xEF, 0xBE, 0x6B,  0xEF, 0xDF, 0x73,  0xEF, 0xFF, 0x7B,
     0xF7, 0x1C, 0x84,  0xF7, 0x3C, 0x8C,  0xF7, 0x5D, 0x94,  0xF7, 0x7D, 0x9C,
     0xF7, 0x9E, 0xA5,  0xF7, 0xBE, 0xAD,  0xF7, 0xDF, 0xB5,  0xF7, 0xFF, 0xBD,
     0xFF, 0x1C, 0xC6,  0xFF, 0x3C, 0xCE,  0xFF, 0x5D, 0xD6,  0xFF, 0x7D, 0xDE,
     0xFF, 0x9E, 0xE7,  0xFF, 0xBE, 0xEF,  0xFF, 0xDF, 0xF7,  0xFF, 0xFF, 0xFF
    ]"

definition palette_rgb332 :: "uint8_t list" where
  "palette_rgb332 =
    [
     0x00, 0x00, 0x00,  0x00, 0x00, 0x68,  0x00, 0x00, 0xB7,  0x00, 0x00, 0xFF,
     0x33, 0x00, 0x00,  0x33, 0x00, 0x68,  0x33, 0x00, 0xB7,  0x33, 0x00, 0xFF,
     0x5C, 0x00, 0x00,  0x5C, 0x00, 0x68,  0x5C, 0x00, 0xB7,  0x5C, 0x00, 0xFF,
     0x7F, 0x00, 0x00,  0x7F, 0x00, 0x68,  0x7F, 0x00, 0xB7,  0x7F, 0x00, 0xFF,
     0xA2, 0x00, 0x00,  0xA2, 0x00, 0x68,  0xA2, 0x00, 0xB7,  0xA2, 0x00, 0xFF,
     0xC1, 0x00, 0x00,  0xC1, 0x00, 0x68,  0xC1, 0x00, 0xB7,  0xC1, 0x00, 0xFF,
     0xE1, 0x00, 0x00,  0xE1, 0x00, 0x68,  0xE1, 0x00, 0xB7,  0xE1, 0x00, 0xFF,
     0xFF, 0x00, 0x00,  0xFF, 0x00, 0x68,  0xFF, 0x00, 0xB7,  0xFF, 0x00, 0xFF,
     0x00, 0x33, 0x00,  0x00, 0x33, 0x68,  0x00, 0x33, 0xB7,  0x00, 0x33, 0xFF,
     0x33, 0x33, 0x00,  0x33, 0x33, 0x68,  0x33, 0x33, 0xB7,  0x33, 0x33, 0xFF,
     0x5C, 0x33, 0x00,  0x5C, 0x33, 0x68,  0x5C, 0x33, 0xB7,  0x5C, 0x33, 0xFF,
     0x7F, 0x33, 0x00,  0x7F, 0x33, 0x68,  0x7F, 0x33, 0xB7,  0x7F, 0x33, 0xFF,
     0xA2, 0x33, 0x00,  0xA2, 0x33, 0x68,  0xA2, 0x33, 0xB7,  0xA2, 0x33, 0xFF,
     0xC1, 0x33, 0x00,  0xC1, 0x33, 0x68,  0xC1, 0x33, 0xB7,  0xC1, 0x33, 0xFF,
     0xE1, 0x33, 0x00,  0xE1, 0x33, 0x68,  0xE1, 0x33, 0xB7,  0xE1, 0x33, 0xFF,
     0xFF, 0x33, 0x00,  0xFF, 0x33, 0x68,  0xFF, 0x33, 0xB7,  0xFF, 0x33, 0xFF,
     0x00, 0x5C, 0x00,  0x00, 0x5C, 0x68,  0x00, 0x5C, 0xB7,  0x00, 0x5C, 0xFF,
     0x33, 0x5C, 0x00,  0x33, 0x5C, 0x68,  0x33, 0x5C, 0xB7,  0x33, 0x5C, 0xFF,
     0x5C, 0x5C, 0x00,  0x5C, 0x5C, 0x68,  0x5C, 0x5C, 0xB7,  0x5C, 0x5C, 0xFF,
     0x7F, 0x5C, 0x00,  0x7F, 0x5C, 0x68,  0x7F, 0x5C, 0xB7,  0x7F, 0x5C, 0xFF,
     0xA2, 0x5C, 0x00,  0xA2, 0x5C, 0x68,  0xA2, 0x5C, 0xB7,  0xA2, 0x5C, 0xFF,
     0xC1, 0x5C, 0x00,  0xC1, 0x5C, 0x68,  0xC1, 0x5C, 0xB7,  0xC1, 0x5C, 0xFF,
     0xE1, 0x5C, 0x00,  0xE1, 0x5C, 0x68,  0xE1, 0x5C, 0xB7,  0xE1, 0x5C, 0xFF,
     0xFF, 0x5C, 0x00,  0xFF, 0x5C, 0x68,  0xFF, 0x5C, 0xB7,  0xFF, 0x5C, 0xFF,
     0x00, 0x7F, 0x00,  0x00, 0x7F, 0x68,  0x00, 0x7F, 0xB7,  0x00, 0x7F, 0xFF,
     0x33, 0x7F, 0x00,  0x33, 0x7F, 0x68,  0x33, 0x7F, 0xB7,  0x33, 0x7F, 0xFF,
     0x5C, 0x7F, 0x00,  0x5C, 0x7F, 0x68,  0x5C, 0x7F, 0xB7,  0x5C, 0x7F, 0xFF,
     0x7F, 0x7F, 0x00,  0x7F, 0x7F, 0x68,  0x7F, 0x7F, 0xB7,  0x7F, 0x7F, 0xFF,
     0xA2, 0x7F, 0x00,  0xA2, 0x7F, 0x68,  0xA2, 0x7F, 0xB7,  0xA2, 0x7F, 0xFF,
     0xC1, 0x7F, 0x00,  0xC1, 0x7F, 0x68,  0xC1, 0x7F, 0xB7,  0xC1, 0x7F, 0xFF,
     0xE1, 0x7F, 0x00,  0xE1, 0x7F, 0x68,  0xE1, 0x7F, 0xB7,  0xE1, 0x7F, 0xFF,
     0xFF, 0x7F, 0x00,  0xFF, 0x7F, 0x68,  0xFF, 0x7F, 0xB7,  0xFF, 0x7F, 0xFF,
     0x00, 0xA2, 0x00,  0x00, 0xA2, 0x68,  0x00, 0xA2, 0xB7,  0x00, 0xA2, 0xFF,
     0x33, 0xA2, 0x00,  0x33, 0xA2, 0x68,  0x33, 0xA2, 0xB7,  0x33, 0xA2, 0xFF,
     0x5C, 0xA2, 0x00,  0x5C, 0xA2, 0x68,  0x5C, 0xA2, 0xB7,  0x5C, 0xA2, 0xFF,
     0x7F, 0xA2, 0x00,  0x7F, 0xA2, 0x68,  0x7F, 0xA2, 0xB7,  0x7F, 0xA2, 0xFF,
     0xA2, 0xA2, 0x00,  0xA2, 0xA2, 0x68,  0xA2, 0xA2, 0xB7,  0xA2, 0xA2, 0xFF,
     0xC1, 0xA2, 0x00,  0xC1, 0xA2, 0x68,  0xC1, 0xA2, 0xB7,  0xC1, 0xA2, 0xFF,
     0xE1, 0xA2, 0x00,  0xE1, 0xA2, 0x68,  0xE1, 0xA2, 0xB7,  0xE1, 0xA2, 0xFF,
     0xFF, 0xA2, 0x00,  0xFF, 0xA2, 0x68,  0xFF, 0xA2, 0xB7,  0xFF, 0xA2, 0xFF,
     0x00, 0xC1, 0x00,  0x00, 0xC1, 0x68,  0x00, 0xC1, 0xB7,  0x00, 0xC1, 0xFF,
     0x33, 0xC1, 0x00,  0x33, 0xC1, 0x68,  0x33, 0xC1, 0xB7,  0x33, 0xC1, 0xFF,
     0x5C, 0xC1, 0x00,  0x5C, 0xC1, 0x68,  0x5C, 0xC1, 0xB7,  0x5C, 0xC1, 0xFF,
     0x7F, 0xC1, 0x00,  0x7F, 0xC1, 0x68,  0x7F, 0xC1, 0xB7,  0x7F, 0xC1, 0xFF,
     0xA2, 0xC1, 0x00,  0xA2, 0xC1, 0x68,  0xA2, 0xC1, 0xB7,  0xA2, 0xC1, 0xFF,
     0xC1, 0xC1, 0x00,  0xC1, 0xC1, 0x68,  0xC1, 0xC1, 0xB7,  0xC1, 0xC1, 0xFF,
     0xE1, 0xC1, 0x00,  0xE1, 0xC1, 0x68,  0xE1, 0xC1, 0xB7,  0xE1, 0xC1, 0xFF,
     0xFF, 0xC1, 0x00,  0xFF, 0xC1, 0x68,  0xFF, 0xC1, 0xB7,  0xFF, 0xC1, 0xFF,
     0x00, 0xE1, 0x00,  0x20, 0xE1, 0x68,  0x00, 0xE1, 0xB7,  0x00, 0xE1, 0xFF,
     0x33, 0xE1, 0x00,  0x33, 0xE1, 0x68,  0x33, 0xE1, 0xB7,  0x33, 0xE1, 0xFF,
     0x5C, 0xE1, 0x00,  0x5C, 0xE1, 0x68,  0x5C, 0xE1, 0xB7,  0x5C, 0xE1, 0xFF,
     0x7F, 0xE1, 0x00,  0x7F, 0xE1, 0x68,  0x7F, 0xE1, 0xB7,  0x7F, 0xE1, 0xFF,
     0xA2, 0xE1, 0x00,  0xA2, 0xE1, 0x68,  0xA2, 0xE1, 0xB7,  0xA2, 0xE1, 0xFF,
     0xC1, 0xE1, 0x00,  0xC1, 0xE1, 0x68,  0xC1, 0xE1, 0xB7,  0xC1, 0xE1, 0xFF,
     0xE1, 0xE1, 0x00,  0xE1, 0xE1, 0x68,  0xE1, 0xE1, 0xB7,  0xE1, 0xE1, 0xFF,
     0xFF, 0xE1, 0x00,  0xFF, 0xE1, 0x68,  0xFF, 0xE1, 0xB7,  0xFF, 0xE1, 0xFF,
     0x00, 0xFF, 0x00,  0x00, 0xFF, 0x68,  0x00, 0xFF, 0xB7,  0x00, 0xFF, 0xFF,
     0x33, 0xFF, 0x00,  0x33, 0xFF, 0x68,  0x33, 0xFF, 0xB7,  0x33, 0xFF, 0xFF,
     0x5C, 0xFF, 0x00,  0x5C, 0xFF, 0x68,  0x5C, 0xFF, 0xB7,  0x5C, 0xFF, 0xFF,
     0x7F, 0xFF, 0x00,  0x7F, 0xFF, 0x68,  0x7F, 0xFF, 0xB7,  0x7F, 0xFF, 0xFF,
     0xA2, 0xFF, 0x00,  0xA2, 0xFF, 0x68,  0xA2, 0xFF, 0xB7,  0xA2, 0xFF, 0xFF,
     0xC1, 0xFF, 0x00,  0xC1, 0xFF, 0x68,  0xC1, 0xFF, 0xB7,  0xC1, 0xFF, 0xFF,
     0xE1, 0xFF, 0x00,  0xE1, 0xFF, 0x68,  0xE1, 0xFF, 0xB7,  0xE1, 0xFF, 0xFF,
     0xFF, 0xFF, 0x00,  0xFF, 0xFF, 0x68,  0xFF, 0xFF, 0xB7,  0xFF, 0xFF, 0xFF
    ]"

text \<open>
  \<^verbatim>\<open>palette_generate_builtin\<close>: entry \<open>i\<close> gets the \<open>i\<close>-th triplet with
  alpha 255 as its \<^verbatim>\<open>rgb\<close> and is then converted; no other field of the entry
  is written. The loop counts \<open>i\<close> upwards; \<open>k\<close> is the number of iterations left.
\<close>

definition builtin_color :: "uint8_t list \<Rightarrow> nat \<Rightarrow> liq_color" where
  "builtin_color builtin i =
     \<lparr>rgb_r = builtin ! (i * 3 + 0), rgb_g = builtin ! (i * 3 + 1),
      rgb_b = builtin ! (i * 3 + 2), rgb_a = 255\<rparr>"

fun builtin_loop ::
  "env \<Rightarrow> uint8_t list \<Rightarrow> color_mode_t \<Rightarrow> nat \<Rightarrow> nat \<Rightarrow> (nat \<Rightarrow> palette_entry_t)
    \<Rightarrow> fault + (nat \<Rightarrow> palette_entry_t)" where
  "builtin_loop E builtin m 0 i T = Inr T"
| "builtin_loop E builtin m (Suc k) i T =
     (if PALETTE_MAX_ENTRIES \<le> i \<or> length builtin \<le> i * 3 + 2 then Inl OutOfBounds
      else builtin_loop E builtin m k (Suc i)
             (T(i := (T i)\<lparr>color :=
                  color_convert E m ((color (T i))\<lparr>rgb := builtin_color builtin i\<rparr>)\<rparr>)))"

definition palette_generate_builtin ::
  "env \<Rightarrow> palette_t \<Rightarrow> uint8_t list \<Rightarrow> nat \<Rightarrow> color_mode_t \<Rightarrow> status \<times> palette_t" where
  "palette_generate_builtin E p builtin n m =
     (case builtin_loop E builtin m n 0 (entries p) of
        Inl f \<Rightarrow> (Crash f, p)
      | Inr T \<Rightarrow> (Success, p\<lparr>entries := T, numEntries := int n\<rparr>))"

subsection \<open>Registering images\<close>

text \<open>
  The conversion jobs of automatic mode (\<^verbatim>\<open>convert_t\<close> and its tileset group),
  with the fields \<^verbatim>\<open>palette_automatic_build\<close> reads.
\<close>

record tileset_t =
  tileset_image :: image_t

record tileset_group_t =
  tilesets :: "tileset_t list"

record convert_t =
  paletteName :: string
  convert_images :: "image_t list"
  tilesetGroup :: "tileset_group_t option"

text \<open>
  \<^verbatim>\<open>palette_add_image\<close> returns 1 for a null path and 0 after appending the
  image. \<^verbatim>\<open>realloc\<close> and \<^verbatim>\<open>strdup\<close> are taken to succeed.
\<close>

definition palette_add_image :: "env \<Rightarrow> palette_t \<Rightarrow> string option \<Rightarrow> int \<times> palette_t" where
  "palette_add_image E p pth =
     (case pth of
        None \<Rightarrow> (1, p)
      | Some s \<Rightarrow>
          (0, p\<lparr>images := images p @ [\<lparr>path = Some s, name = Some (strings_basename E s)\<rparr>]\<rparr>))"

text \<open>The two inner loops of \<^verbatim>\<open>palette_automatic_build\<close>: stop at the first failure.\<close>

fun add_images :: "env \<Rightarrow> palette_t \<Rightarrow> string option list \<Rightarrow> int \<times> palette_t" where
  "add_images E p [] = (0, p)"
| "add_images E p (x # xs) =
     (case palette_add_image E p x of
        (ret, p') \<Rightarrow> if ret \<noteq> 0 then (ret, p') else add_images E p' xs)"

fun palette_automatic_build :: "env \<Rightarrow> palette_t \<Rightarrow> convert_t list \<Rightarrow> int \<times> palette_t" where
  "palette_automatic_build E p [] = (0, p)"
| "palette_automatic_build E p (c # cs) =
     (if palette_name p \<noteq> paletteName c then palette_automatic_build E p cs
      else
        (case add_images E p (map path (convert_images c)) of
           (ret, p1) \<Rightarrow>
             if ret \<noteq> 0 then (ret, p1)
             else
               (case tilesetGroup c of
                  None \<Rightarrow> palette_automatic_build E p1 cs
                | Some grp \<Rightarrow>
                    (case add_images E p1 (map (\<lambda>t. path (tileset_image t)) (tilesets grp)) of
                       (ret2, p2) \<Rightarrow>
                         if ret2 \<noteq> 0 then (ret2, p2)
                         else palette_automatic_build E p2 cs))))"

subsection \<open>Quantization input\<close>

text \<open>
  The \<^verbatim>\<open>liq_*_create\<close> and \<^verbatim>\<open>liq_*_destroy\<close> calls: an object is live from
  its creation to its destruction; destroying an object that is not live (a null pointer)
  does nothing.
\<close>

definition liq_create :: "liq_handle \<Rightarrow> world \<Rightarrow> world" where
  "liq_create h w = w\<lparr>live := h # live w\<rparr>"

definition liq_destroy :: "liq_handle \<Rightarrow> world \<Rightarrow> world" where
  "liq_destroy h w = w\<lparr>live := remove1 h (live w)\<rparr>"

text \<open>Lines 281-289: the number of exact fixed entries.\<close>

fun count_exact :: "palette_entry_t list \<Rightarrow> int" where
  "count_exact [] = 0"
| "count_exact (e # es) = (if exact e then 1 else 0) + count_exact es"

text \<open>
  Lines 300-309: every non-exact fixed entry is converted in place (in
  \<^verbatim>\<open>palette->fixedEntries\<close>) and its colour is added to the histogram.
\<close>

fun seed_fixed ::
  "env \<Rightarrow> color_mode_t \<Rightarrow> palette_entry_t list \<Rightarrow> liq_histogram
    \<Rightarrow> palette_entry_t list \<times> liq_histogram" where
  "seed_fixed E m [] h = ([], h)"
| "seed_fixed E m (e # es) h =
     (if \<not> exact e then
        (let e' = e\<lparr>color := color_convert E m (color e)\<rparr>;
             h' = h\<lparr>hist_fixed := hist_fixed h @ [rgb (color e')]\<rparr>
         in case seed_fixed E m es h' of (es', h'') \<Rightarrow> (e' # es', h''))
      else
        (case seed_fixed E m es h of (es', h'') \<Rightarrow> (e # es', h'')))"

text \<open>
  Lines 347-360: the loop over the fixed entries that decides \<^verbatim>\<open>addcolor\<close> for one
  pixel. It is true when the loop breaks, that is when \<^verbatim>\<open>addcolor\<close> ends false.
\<close>

fun matches_exact_fixed :: "palette_entry_t list \<Rightarrow> liq_color \<Rightarrow> bool" where
  "matches_exact_fixed [] c = False"
| "matches_exact_fixed (e # es) c =
     (if exact e \<and> rgb_r c = rgb_r (rgb (color e)) \<and> rgb_g c = rgb_g (rgb (color e))
          \<and> rgb_b c = rgb_b (rgb (color e))
      then True
      else matches_exact_fixed es c)"

text \<open>
  Lines 334-375: the pixels of one image, as a list of RGBA values (four bytes of
  \<^verbatim>\<open>image->data\<close> each). The buffer is compacted in place: pixel \<open>j\<close> is read,
  and when it is kept its conversion (the local \<^verbatim>\<open>color\<close> gets the pixel as its
  \<^verbatim>\<open>rgb\<close> and is converted) is written at position \<open>numcolors\<close>. \<open>k\<close>
  counts the iterations left, so \<open>j < length data\<close> whenever the buffer is read.
\<close>

definition converted_pixel :: "env \<Rightarrow> color_mode_t \<Rightarrow> liq_color \<Rightarrow> liq_color" where
  "converted_pixel E m c = rgb (color_convert E m ((uninit_color E)\<lparr>rgb := c\<rparr>))"

fun filter_loop ::
  "env \<Rightarrow> color_mode_t \<Rightarrow> palette_entry_t list \<Rightarrow> nat \<Rightarrow> nat \<Rightarrow> liq_color list \<Rightarrow> nat
    \<Rightarrow> liq_color list \<times> nat" where
  "filter_loop E m fs 0 j data numcolors = (data, numcolors)"
| "filter_loop E m fs (Suc k) j data numcolors =
     (let c = data ! j in
      if matches_exact_fixed fs c then filter_loop E m fs k (Suc j) data numcolors
      else filter_loop E m fs k (Suc j)
             (data[numcolors := converted_pixel E m c]) (Suc numcolors))"

text \<open>
  Lines 314-392: the loop over the images. It returns \<open>None\<close> where the source returns 1
  after a failed load (having destroyed the histogram and the attribute object), and the
  histogram with \<^verbatim>\<open>needquantize\<close> otherwise.
\<close>

fun image_loop ::
  "env \<Rightarrow> color_mode_t \<Rightarrow> palette_entry_t list \<Rightarrow> int \<Rightarrow> image_t list \<Rightarrow> liq_histogram \<Rightarrow> bool
    \<Rightarrow> world \<Rightarrow> (liq_histogram \<times> bool) option \<times> world" where
  "image_loop E m fs cap [] h needquantize w = (Some (h, needquantize), w)"
| "image_loop E m fs cap (img # imgs) h needquantize w =
     (if \<not> 1 < cap then (Some (h, needquantize), w)
      else
        (let w1 = w\<lparr>loads := loads w @ [img]\<rparr> in
         case image_load E img of
           None \<Rightarrow> (None, liq_destroy LiqAttr (liq_destroy LiqHistogram w1))
         | Some data \<Rightarrow>
             (case filter_loop E m fs (length data) 0 data 0 of
                (data', numcolors) \<Rightarrow>
                  if 0 < numcolors then
                    image_loop E m fs cap imgs
                      (h\<lparr>hist_rows := hist_rows h @ [take numcolors data']\<rparr>) True
                      (liq_destroy LiqImage (liq_create LiqImage w1))
                  else image_loop E m fs cap imgs h needquantize w1)))"

subsection \<open>Quantize and resolve\<close>

text \<open>
  Lines 408-425: the quantizer's colours go to \<^verbatim>\<open>entries[0..count)\<close>. The local
  \<^verbatim>\<open>color\<close> is uninitialised but for \<^verbatim>\<open>r\<close>, \<^verbatim>\<open>g\<close> and
  \<^verbatim>\<open>b\<close>; only the fields \<^verbatim>\<open>color\<close> and \<^verbatim>\<open>valid\<close> of the entry
  are written.
\<close>

definition quantized_color :: "env \<Rightarrow> color_mode_t \<Rightarrow> liq_color \<Rightarrow> color_t" where
  "quantized_color E m c =
     color_convert E m
       ((uninit_color E)\<lparr>rgb := (rgb (uninit_color E))
           \<lparr>rgb_r := rgb_r c, rgb_g := rgb_g c, rgb_b := rgb_b c\<rparr>\<rparr>)"

fun store_loop ::
  "env \<Rightarrow> color_mode_t \<Rightarrow> liq_color list \<Rightarrow> nat \<Rightarrow> (nat \<Rightarrow> palette_entry_t) \<Rightarrow> int
    \<Rightarrow> fault + ((nat \<Rightarrow> palette_entry_t) \<times> int)" where
  "store_loop E m [] i T maxIndex = Inr (T, maxIndex)"
| "store_loop E m (c # cs) i T maxIndex =
     (if PALETTE_MAX_ENTRIES \<le> i then Inl OutOfBounds
      else store_loop E m cs (Suc i)
             (T(i := (T i)\<lparr>color := quantized_color E m c, valid := True\<rparr>))
             (if maxIndex < int i then int i else maxIndex))"

text \<open>
  Lines 438-460, the search: the first \<open>j\<close> below \<^verbatim>\<open>liqpalette->count\<close> whose
  entry has the fixed colour's \<^verbatim>\<open>r\<close>, \<^verbatim>\<open>g\<close> and \<^verbatim>\<open>b\<close>.
\<close>

definition same_rgb :: "liq_color \<Rightarrow> liq_color \<Rightarrow> bool" where
  "same_rgb x y \<longleftrightarrow> rgb_r x = rgb_r y \<and> rgb_g x = rgb_g y \<and> rgb_b x = rgb_b y"

fun find_color ::
  "(nat \<Rightarrow> palette_entry_t) \<Rightarrow> liq_color \<Rightarrow> nat \<Rightarrow> nat \<Rightarrow> fault + nat option" where
  "find_color T c 0 j = Inr None"
| "find_color T c (Suc k) j =
     (if PALETTE_MAX_ENTRIES \<le> j then Inl OutOfBounds
      else if same_rgb c (rgb (color (T j))) then Inr (Some j)
      else find_color T c k (Suc j))"

text \<open>
  Lines 432-460 for one non-exact fixed entry. \<open>lp\<close> is \<^verbatim>\<open>liqpalette\<close>: \<open>None\<close>
  for the null pointer it is initialised to, \<open>Some count\<close> once
  \<^verbatim>\<open>liq_get_palette\<close> has run. The loop condition reads
  \<^verbatim>\<open>liqpalette->count\<close> before its first iteration.
\<close>

definition place_nonexact ::
  "palette_entry_t \<Rightarrow> nat option \<Rightarrow> (nat \<Rightarrow> palette_entry_t) \<times> int
    \<Rightarrow> fault + ((nat \<Rightarrow> palette_entry_t) \<times> int)" where
  "place_nonexact fe lp s =
     (case s of (T, maxIndex) \<Rightarrow>
        (case lp of
           None \<Rightarrow> Inl NullDereference
         | Some cnt \<Rightarrow>
             (case find_color T (rgb (color fe)) cnt 0 of
                Inl f \<Rightarrow> Inl f
              | Inr None \<Rightarrow> Inr (T, maxIndex)
              | Inr (Some j) \<Rightarrow>
                  if PALETTE_MAX_ENTRIES \<le> index fe then Inl OutOfBounds
                  else
                    (let tmpEntry = T j;
                         T1 = T(j := T (index fe));
                         T2 = T1(index fe := tmpEntry);
                         T3 = T2(index fe := (T2 (index fe))\<lparr>valid := True\<rparr>)
                     in Inr (T3, if maxIndex < int (index fe) then int (index fe)
                                 else maxIndex)))))"

fun nonexact_loop ::
  "palette_entry_t list \<Rightarrow> nat option \<Rightarrow> (nat \<Rightarrow> palette_entry_t) \<times> int
    \<Rightarrow> fault + ((nat \<Rightarrow> palette_entry_t) \<times> int)" where
  "nonexact_loop [] lp s = Inr s"
| "nonexact_loop (fe # fes) lp s =
     (if exact fe then nonexact_loop fes lp s
      else (case place_nonexact fe lp s of
              Inl f \<Rightarrow> Inl f
            | Inr s' \<Rightarrow> nonexact_loop fes lp s'))"

text \<open>
  Lines 481-487: the scan for a slot that is not valid; it ends on
  \<open>PALETTE_MAX_ENTRIES\<close> when every slot is valid.
\<close>

fun first_free :: "(nat \<Rightarrow> palette_entry_t) \<Rightarrow> nat \<Rightarrow> nat \<Rightarrow> nat" where
  "first_free T 0 j = j"
| "first_free T (Suc k) j = (if \<not> valid (T j) then j else first_free T k (Suc j))"

text \<open>
  Lines 467-503 for one exact fixed entry: convert it in place, move a valid occupant of
  its slot to the first free slot, write the entry to its slot and mark it valid.
\<close>

definition place_exact ::
  "env \<Rightarrow> color_mode_t \<Rightarrow> palette_entry_t \<Rightarrow> (nat \<Rightarrow> palette_entry_t) \<times> int
    \<Rightarrow> fault + (palette_entry_t \<times> (nat \<Rightarrow> palette_entry_t) \<times> int)" where
  "place_exact E m fe0 s =
     (case s of (T, maxIndex) \<Rightarrow>
        (let fe = fe0\<lparr>color := color_convert E m (color fe0)\<rparr> in
         if PALETTE_MAX_ENTRIES \<le> index fe then Inl OutOfBounds
         else
           (let j = first_free T PALETTE_MAX_ENTRIES 0 in
            if valid (T (index fe)) \<and> PALETTE_MAX_ENTRIES \<le> j then Inl OutOfBounds
            else
              (let T1 = (if valid (T (index fe)) then T(j := T (index fe)) else T);
                   mx1 = (if valid (T (index fe)) \<and> maxIndex < int j then int j else maxIndex)
               in Inr (fe, T1(index fe := fe\<lparr>valid := True\<rparr>),
                       if mx1 < int (index fe) then int (index fe) else mx1)))))"

fun exact_loop ::
  "env \<Rightarrow> color_mode_t \<Rightarrow> palette_entry_t list \<Rightarrow> (nat \<Rightarrow> palette_entry_t) \<times> int
    \<Rightarrow> fault + (palette_entry_t list \<times> (nat \<Rightarrow> palette_entry_t) \<times> int)" where
  "exact_loop E m [] s = Inr ([], s)"
| "exact_loop E m (fe # fes) s =
     (if \<not> exact fe then
        (case exact_loop E m fes s of
           Inl f \<Rightarrow> Inl f
         | Inr (fes', s') \<Rightarrow> Inr (fe # fes', s'))
      else
        (case place_exact E m fe s of
           Inl f \<Rightarrow> Inl f
         | Inr (fe', s1) \<Rightarrow>
             (case exact_loop E m fes s1 of
                Inl f \<Rightarrow> Inl f
              | Inr (fes', s') \<Rightarrow> Inr (fe' # fes', s'))))"

text \<open>Lines 508-514: the slots below \<^verbatim>\<open>numEntries\<close> that are not valid.\<close>

fun unused_loop :: "(nat \<Rightarrow> palette_entry_t) \<Rightarrow> nat \<Rightarrow> nat \<Rightarrow> int \<Rightarrow> fault + int" where
  "unused_loop T 0 i unused = Inr unused"
| "unused_loop T (Suc k) i unused =
     (if PALETTE_MAX_ENTRIES \<le> i then Inl OutOfBounds
      else unused_loop T k (Suc i) (if \<not> valid (T i) then unused + 1 else unused))"

text \<open>
  Lines 428-524: the resolution of the fixed entries and the end of
  \<^verbatim>\<open>palette_generate_with_images\<close>. After a \<open>Crash\<close> the state that is
  returned means nothing.
\<close>

definition resolve_fixed ::
  "env \<Rightarrow> palette_t \<Rightarrow> nat option \<Rightarrow> (nat \<Rightarrow> palette_entry_t) \<times> int \<Rightarrow> world
    \<Rightarrow> status \<times> palette_t \<times> world" where
  "resolve_fixed E p lp s w =
     (case nonexact_loop (fixedEntries p) lp s of
        Inl f \<Rightarrow> (Crash f, p, w)
      | Inr s1 \<Rightarrow>
          (case exact_loop E (mode p) (fixedEntries p) s1 of
             Inl f \<Rightarrow> (Crash f, p, w)
           | Inr (fes, T, maxIndex) \<Rightarrow>
               (let p' = p\<lparr>fixedEntries := fes, entries := T, numEntries := maxIndex + 1\<rparr> in
                case unused_loop T (nat (numEntries p')) 0 0 of
                  Inl f \<Rightarrow> (Crash f, p', w)
                | Inr unused \<Rightarrow>
                    (Success, p',
                     liq_destroy LiqAttr (liq_destroy LiqHistogram (liq_destroy LiqResult
                       (w\<lparr>reported := reported w @
                            [(numEntries p',
                              int PALETTE_MAX_ENTRIES - numEntries p' + unused)]\<rparr>)))))))"

text \<open>\<^verbatim>\<open>palette_generate_with_images\<close>.\<close>

definition palette_generate_with_images ::
  "env \<Rightarrow> palette_t \<Rightarrow> world \<Rightarrow> status \<times> palette_t \<times> world" where
  "palette_generate_with_images E p w =
     (let w1 = liq_create LiqAttr w;
          exactEntries = count_exact (fixedEntries p);
          cap = maxEntries p - exactEntries;
          attr = \<lparr>attr_speed = quantizeSpeed p, attr_max_colors = cap\<rparr>;
          w2 = liq_create LiqHistogram w1
      in case seed_fixed E (mode p) (fixedEntries p) \<lparr>hist_fixed = [], hist_rows = []\<rparr> of
        (fes, hist) \<Rightarrow>
          (let p1 = p\<lparr>fixedEntries := fes\<rparr> in
           case image_loop E (mode p) fes cap (images p) hist False w2 of
             (None, w3) \<Rightarrow> (Failure ImageLoadFailure, p1, w3)
           | (Some (hist', needquantize), w3) \<Rightarrow>
               if needquantize then
                 (let w4 = w3\<lparr>quantized := quantized w3 @ [hist']\<rparr> in
                  case liq_quantize E hist' attr of
                    None \<Rightarrow>
                      (Failure QuantizeFailure, p1,
                       liq_destroy LiqAttr (liq_destroy LiqHistogram w4))
                  | Some liqpalette \<Rightarrow>
                      (case store_loop E (mode p) liqpalette 0 (entries p1) (- 1) of
                         Inl f \<Rightarrow> (Crash f, p1, liq_create LiqResult w4)
                       | Inr s \<Rightarrow>
                           resolve_fixed E p1 (Some (length liqpalette)) s
                             (liq_create LiqResult w4)))
               else resolve_fixed E p1 None (entries p1, - 1) w3))"

subsection \<open>The entry point\<close>

text \<open>Lines 595-603: without images the fixed entries are copied to their slots.\<close>

fun copy_fixed ::
  "palette_entry_t list \<Rightarrow> (nat \<Rightarrow> palette_entry_t) \<times> int
    \<Rightarrow> fault + ((nat \<Rightarrow> palette_entry_t) \<times> int)" where
  "copy_fixed [] s = Inr s"
| "copy_fixed (fe # fes) s =
     (case s of (T, maxIndex) \<Rightarrow>
        if PALETTE_MAX_ENTRIES \<le> index fe then Inl OutOfBounds
        else copy_fixed fes
               (T(index fe := fe), if maxIndex < int (index fe) then int (index fe) else maxIndex))"

text \<open>
  \<^verbatim>\<open>palette_generate\<close>. The palette is a value, so the null check of the first
  lines cannot fire.
\<close>

definition palette_generate ::
  "env \<Rightarrow> palette_t \<Rightarrow> convert_t list \<Rightarrow> world \<Rightarrow> status \<times> palette_t \<times> world" where
  "palette_generate E p converts w =
     (if palette_name p = ''xlibc'' then
        (case palette_generate_builtin E p palette_xlibc PALETTE_MAX_ENTRIES
                COLOR_MODE_1555_GBGR of (st, p') \<Rightarrow> (st, p', w))
      else if palette_name p = ''rgb332'' then
        (case palette_generate_builtin E p palette_rgb332 PALETTE_MAX_ENTRIES
                COLOR_MODE_1555_GBGR of (st, p') \<Rightarrow> (st, p', w))
      else
        (case (if automatic p then palette_automatic_build E p converts else (0, p)) of
           (ret, p1) \<Rightarrow>
             if ret \<noteq> 0 then (Failure AutomaticBuildFailure, p1, w)
             else if numFixedEntries p1 > maxEntries p1 then (Failure TooManyFixedColors, p1, w)
             else if numImages p1 > 0 then palette_generate_with_images E p1 w
             else if numFixedEntries p1 = 0 then (Failure EmptyPalette, p1, w)
             else
               (case copy_fixed (fixedEntries p1) (entries p1, - 1) of
                  Inl f \<Rightarrow> (Crash f, p1, w)
                | Inr (T, maxIndex) \<Rightarrow>
                    (Success, p1\<lparr>entries := T, numEntries := maxIndex + 1\<rparr>,
                     w\<lparr>reported := reported w @
                          [(maxIndex + 1,
                            int PALETTE_MAX_ENTRIES - (maxIndex + 1) + numFixedEntries p1)]\<rparr>))))"

subsection \<open>Observations\<close>

text \<open>
  The multiset of the colours of the valid slots of a table: a slot contributes its colour
  when it is valid and nothing otherwise.
\<close>

definition cell :: "palette_entry_t \<Rightarrow> color_t multiset" where
  "cell e = (if valid e then {#color e#} else {#})"

definition valid_colors :: "(nat \<Rightarrow> palette_entry_t) \<Rightarrow> color_t multiset" where
  "valid_colors T = (\<Sum>i<PALETTE_MAX_ENTRIES. cell (T i))"

text \<open>
  What the seeding loop leaves of one fixed entry, and the row one image contributes to
  the histogram, written with the functions of the source.
\<close>

definition seed_entry :: "env \<Rightarrow> color_mode_t \<Rightarrow> palette_entry_t \<Rightarrow> palette_entry_t" where
  "seed_entry E m e = (if exact e then e else e\<lparr>color := color_convert E m (color e)\<rparr>)"

definition image_row :: "env \<Rightarrow> color_mode_t \<Rightarrow> palette_entry_t list \<Rightarrow> image_t \<Rightarrow> liq_color list" where
  "image_row E m fs img =
     map (converted_pixel E m)
       (filter (\<lambda>c. \<not> matches_exact_fixed fs c)
          (case image_load E img of None \<Rightarrow> [] | Some data \<Rightarrow> data))"

text \<open>
  The quantizer input as the spec describes it: a pixel is dropped when its red, green and
  blue equal those of some exact fixed entry (alpha is not compared); the pixels that
  remain are converted; an image whose row is empty submits nothing; and no image is
  processed unless the quantization capacity exceeds 1.
\<close>

definition is_exact_fixed_color :: "palette_entry_t list \<Rightarrow> liq_color \<Rightarrow> bool" where
  "is_exact_fixed_color fs c \<longleftrightarrow> (\<exists>fe\<in>set fs. exact fe \<and> same_rgb c (rgb (color fe)))"

definition surviving_pixels :: "palette_entry_t list \<Rightarrow> liq_color list \<Rightarrow> liq_color list" where
  "surviving_pixels fs data = filter (\<lambda>c. \<not> is_exact_fixed_color fs c) data"

definition submitted_rows :: "env \<Rightarrow> palette_t \<Rightarrow> liq_color list list" where
  "submitted_rows E p =
     (if 1 < maxEntries p - count_exact (fixedEntries p) then
        filter (\<lambda>row. row \<noteq> [])
          (map (\<lambda>img. map (converted_pixel E (mode p))
                        (surviving_pixels (fixedEntries p)
                           (case image_load E img of None \<Rightarrow> [] | Some data \<Rightarrow> data)))
               (images p))
      else [])"



subsection \<open>Sample inputs\<close>

text \<open>
  A converter that only sets the packed value (one value per mode), a table of empty
  slots, fixed entries as a configuration file gives them (not converted, not marked
  valid), and an environment built from a file system and a quantizer result.
\<close>

definition sample_convert :: "color_mode_t \<Rightarrow> color_t \<Rightarrow> color_t" where
  "sample_convert m c =
     c\<lparr>target := (case m of COLOR_MODE_1555_GBGR \<Rightarrow> 1555 | COLOR_MODE_OTHER n \<Rightarrow> 565)\<rparr>"

definition px :: "nat \<Rightarrow> nat \<Rightarrow> nat \<Rightarrow> liq_color" where
  "px x y z = \<lparr>rgb_r = of_nat x, rgb_g = of_nat y, rgb_b = of_nat z, rgb_a = 255\<rparr>"

definition empty_slot :: palette_entry_t where
  "empty_slot =
     \<lparr>color = \<lparr>rgb = \<lparr>rgb_r = 0, rgb_g = 0, rgb_b = 0, rgb_a = 0\<rparr>, target = 0\<rparr>,
      index = 0, exact = False, valid = False\<rparr>"

definition fixed_entry :: "nat \<Rightarrow> bool \<Rightarrow> liq_color \<Rightarrow> palette_entry_t" where
  "fixed_entry i ex c = \<lparr>color = \<lparr>rgb = c, target = 0\<rparr>, index = i, exact = ex, valid = False\<rparr>"

definition sample_image :: "string \<Rightarrow> image_t" where
  "sample_image s = \<lparr>path = Some s, name = Some s\<rparr>"

definition sample_env :: "(string \<Rightarrow> liq_color list option) \<Rightarrow> liq_color list option \<Rightarrow> env" where
  "sample_env files q =
     \<lparr>color_convert = sample_convert,
      image_load = (\<lambda>img. case path img of None \<Rightarrow> None | Some s \<Rightarrow> files s),
      liq_quantize = (\<lambda>h a. q),
      strings_basename = (\<lambda>s. s),
      uninit_color = \<lparr>rgb = \<lparr>rgb_r = 7, rgb_g = 7, rgb_b = 7, rgb_a = 7\<rparr>, target = 7\<rparr>\<rparr>"

definition sample_world :: world where
  "sample_world = \<lparr>live = [], loads = [], quantized = [], reported = []\<rparr>"

definition sample_palette ::
  "string \<Rightarrow> image_t list \<Rightarrow> int \<Rightarrow> palette_entry_t list \<Rightarrow> palette_t" where
  "sample_palette n imgs mx fs =
     \<lparr>palette_name = n, images = imgs, maxEntries = mx, entries = (\<lambda>i. empty_slot),
      numEntries = 0, fixedEntries = fs, mode = COLOR_MODE_1555_GBGR, quantizeSpeed = 3,
      automatic = False\<rparr>"

text \<open>One file: two black pixels and two pixels of other colours.\<close>

definition sample_files :: "string \<Rightarrow> liq_color list option" where
  "sample_files s =
     (if s = ''a.png'' then Some [px 0 0 0, px 1 2 3, px 0 0 0, px 4 5 6] else None)"

text \<open>One file whose pixels are all black.\<close>

definition black_files :: "string \<Rightarrow> liq_color list option" where
  "black_files s = (if s = ''a.png'' then Some [px 0 0 0, px 0 0 0] else None)"

text \<open>
  A table whose slot 0 is occupied, the table after the quantizer's colours (1, 2, 3)
  and (4, 5, 6) have been stored, and a table that starts with a valid slot 200.
\<close>

definition stale_table :: "nat \<Rightarrow> palette_entry_t" where
  "stale_table = (\<lambda>i. empty_slot)(200 := empty_slot\<lparr>valid := True\<rparr>)"

definition occupied_table :: "nat \<Rightarrow> palette_entry_t" where
  "occupied_table = (\<lambda>i. empty_slot)(0 := (fixed_entry 0 False (px 1 2 3))\<lparr>valid := True\<rparr>)"

definition quantized_table :: "nat \<Rightarrow> palette_entry_t" where
  "quantized_table =
     (\<lambda>i. empty_slot)
       (0 := empty_slot\<lparr>color := \<lparr>rgb = px 1 2 3, target = 1555\<rparr>, valid := True\<rparr>,
        1 := empty_slot\<lparr>color := \<lparr>rgb = px 4 5 6, target = 1555\<rparr>, valid := True\<rparr>)"

text \<open>
  255 colours that begin with (1, 0, 0) and black, a file whose pixels are these colours,
  and a file with the pixels (1, 2, 3) and (4, 5, 6).
\<close>

definition crowded_colors :: "liq_color list" where
  "crowded_colors = px 1 0 0 # px 0 0 0 # map (\<lambda>i. px 2 i 0) [0..<253]"

definition crowded_files :: "string \<Rightarrow> liq_color list option" where
  "crowded_files s = (if s = ''c.png'' then Some crowded_colors else None)"

definition plain_files :: "string \<Rightarrow> liq_color list option" where
  "plain_files s = (if s = ''b.png'' then Some [px 1 2 3, px 4 5 6] else None)"

section \<open>Properties\<close>

subsection \<open>The steps of the resolution\<close>

lemma find_color_Some:
  "find_color T c k j0 = Inr (Some j) \<Longrightarrow>
     j0 \<le> j \<and> j < j0 + k \<and> j < PALETTE_MAX_ENTRIES \<and> same_rgb c (rgb (color (T j)))"
proof (induction k arbitrary: j0)
  case 0
  then show ?case by simp
next
  case (Suc k)
  show ?case
  proof (cases "same_rgb c (rgb (color (T j0)))")
    case True
    with Suc.prems show ?thesis by (auto split: if_splits)
  next
    case False
    with Suc.prems have "find_color T c k (Suc j0) = Inr (Some j)"
      by (auto split: if_splits)
    from Suc.IH [OF this] show ?thesis by simp
  qed
qed

lemma find_color_None:
  "j0 + k \<le> PALETTE_MAX_ENTRIES \<Longrightarrow>
   \<forall>j. j0 \<le> j \<and> j < j0 + k \<longrightarrow> \<not> same_rgb c (rgb (color (T j))) \<Longrightarrow>
   find_color T c k j0 = Inr None"
proof (induction k arbitrary: j0)
  case 0
  then show ?case by simp
next
  case (Suc k)
  have "\<not> PALETTE_MAX_ENTRIES \<le> j0" "\<not> same_rgb c (rgb (color (T j0)))"
    using Suc.prems by auto
  moreover have "find_color T c k (Suc j0) = Inr None"
    using Suc.prems by (intro Suc.IH) auto
  ultimately show ?case by simp
qed

lemma first_free_bounds: "j0 \<le> first_free T k j0 \<and> first_free T k j0 \<le> j0 + k"
proof (induction k arbitrary: j0)
  case 0
  then show ?case by simp
next
  case (Suc k)
  from Suc [of "Suc j0"] show ?case by auto
qed

lemma first_free_invalid: "first_free T k j0 < j0 + k \<Longrightarrow> \<not> valid (T (first_free T k j0))"
proof (induction k arbitrary: j0)
  case 0
  then show ?case by simp
next
  case (Suc k)
  show ?case
  proof (cases "valid (T j0)")
    case True
    with Suc.prems have "first_free T k (Suc j0) < Suc j0 + k" by simp
    from Suc.IH [OF this] True show ?thesis by simp
  next
    case False
    then show ?thesis by simp
  qed
qed

lemma first_free_prefix: "j0 \<le> i \<Longrightarrow> i < first_free T k j0 \<Longrightarrow> valid (T i)"
proof (induction k arbitrary: j0)
  case 0
  then show ?case by simp
next
  case (Suc k)
  show ?case
  proof (cases "valid (T j0)")
    case True
    show ?thesis
    proof (cases "i = j0")
      case True
      with \<open>valid (T j0)\<close> show ?thesis by simp
    next
      case False
      with Suc.prems True have "Suc j0 \<le> i" "i < first_free T k (Suc j0)" by simp_all
      then show ?thesis by (rule Suc.IH)
    qed
  next
    case False
    with Suc.prems show ?thesis by simp
  qed
qed

lemma valid_colors_update:
  assumes "j < PALETTE_MAX_ENTRIES"
  shows "valid_colors (T(j := e)) + cell (T j) = valid_colors T + cell e"
proof -
  let ?A = "{..<PALETTE_MAX_ENTRIES}"
  have fin: "finite ?A" and mem: "j \<in> ?A" using assms by simp_all
  have rest: "(\<Sum>i\<in>?A - {j}. cell ((T(j := e)) i)) = (\<Sum>i\<in>?A - {j}. cell (T i))"
    by (rule sum.cong) simp_all
  have a: "valid_colors (T(j := e)) = cell e + (\<Sum>i\<in>?A - {j}. cell (T i))"
    unfolding valid_colors_def by (subst sum.remove [OF fin mem]) (simp add: rest)
  have b: "valid_colors T = cell (T j) + (\<Sum>i\<in>?A - {j}. cell (T i))"
    unfolding valid_colors_def by (subst sum.remove [OF fin mem]) simp
  show ?thesis by (simp add: a b)
qed

text \<open>What a successful step does to the table.\<close>

lemma place_nonexact_cases:
  assumes "place_nonexact fe lp (T, mx) = Inr (T', mx')"
  shows "\<exists>cnt. lp = Some cnt \<and>
          ((find_color T (rgb (color fe)) cnt 0 = Inr None \<and> T' = T \<and> mx' = mx)
           \<or> (\<exists>j. find_color T (rgb (color fe)) cnt 0 = Inr (Some j)
                 \<and> index fe < PALETTE_MAX_ENTRIES
                 \<and> T' = T(j := T (index fe), index fe := (T j)\<lparr>valid := True\<rparr>)
                 \<and> mx' = (if mx < int (index fe) then int (index fe) else mx)))"
proof (cases lp)
  case None
  with assms show ?thesis by (simp add: place_nonexact_def)
next
  case (Some cnt)
  show ?thesis
  proof (cases "find_color T (rgb (color fe)) cnt 0")
    case (Inl f)
    with assms Some show ?thesis by (simp add: place_nonexact_def)
  next
    case (Inr r)
    show ?thesis
    proof (cases r)
      case None
      with assms Some Inr show ?thesis by (simp add: place_nonexact_def)
    next
      case (Some j)
      with assms \<open>lp = Some cnt\<close> Inr show ?thesis
        by (auto simp: place_nonexact_def Let_def split: if_splits)
    qed
  qed
qed

lemma place_exact_cases:
  assumes "place_exact E m fe (T, mx) = Inr (fe', T', mx')"
  shows "fe' = fe\<lparr>color := color_convert E m (color fe)\<rparr> \<and> index fe < PALETTE_MAX_ENTRIES
     \<and> ((\<not> valid (T (index fe)) \<and> T' = T(index fe := fe'\<lparr>valid := True\<rparr>)
          \<and> mx' = (if mx < int (index fe) then int (index fe) else mx))
        \<or> (valid (T (index fe)) \<and> first_free T PALETTE_MAX_ENTRIES 0 < PALETTE_MAX_ENTRIES
            \<and> T' = T(first_free T PALETTE_MAX_ENTRIES 0 := T (index fe),
                     index fe := fe'\<lparr>valid := True\<rparr>)
            \<and> mx' = (let mx1 = (if mx < int (first_free T PALETTE_MAX_ENTRIES 0)
                                 then int (first_free T PALETTE_MAX_ENTRIES 0) else mx)
                     in if mx1 < int (index fe) then int (index fe) else mx1)))"
  using assms
  by (auto simp: place_exact_def Let_def split: if_splits)


subsection \<open>Quantization input\<close>

lemma seed_fixed_result:
  "seed_fixed E m fs h =
     (map (seed_entry E m) fs,
      h\<lparr>hist_fixed := hist_fixed h @
           map (\<lambda>e. rgb (color_convert E m (color e))) (filter (\<lambda>e. \<not> exact e) fs)\<rparr>)"
proof (induction fs arbitrary: h)
  case Nil
  then show ?case by simp
next
  case (Cons e fs)
  show ?case
  proof (cases "exact e")
    case True
    then show ?thesis by (simp add: Cons.IH seed_entry_def)
  next
    case False
    then show ?thesis by (simp add: Cons.IH seed_entry_def Let_def)
  qed
qed

lemma matches_exact_fixed_iff:
  "matches_exact_fixed fs c \<longleftrightarrow>
     (\<exists>fe\<in>set fs. exact fe \<and> rgb_r c = rgb_r (rgb (color fe))
        \<and> rgb_g c = rgb_g (rgb (color fe)) \<and> rgb_b c = rgb_b (rgb (color fe)))"
  by (induction fs) auto

lemma matches_exact_fixed_seeded:
  "matches_exact_fixed (map (seed_entry E m) fs) c = matches_exact_fixed fs c"
  by (induction fs) (auto simp: seed_entry_def)

lemma filter_loop_invariant:
  "j + k = length data \<Longrightarrow> nc \<le> j \<Longrightarrow> filter_loop E m fs k j data nc = (data', nc') \<Longrightarrow>
   length data' = length data \<and> nc' \<le> length data
   \<and> take nc' data' =
       take nc data @ map (converted_pixel E m)
                         (filter (\<lambda>c. \<not> matches_exact_fixed fs c) (drop j data))"
proof (induction k arbitrary: j data nc)
  case 0
  then show ?case by simp
next
  case (Suc k)
  have jlt: "j < length data" using Suc.prems(1) by simp
  have dr: "drop j data = data ! j # drop (Suc j) data"
    using jlt by (simp add: Cons_nth_drop_Suc)
  show ?case
  proof (cases "matches_exact_fixed fs (data ! j)")
    case True
    with Suc.prems(3) have run: "filter_loop E m fs k (Suc j) data nc = (data', nc')"
      by (simp add: Let_def)
    have "Suc j + k = length data" "nc \<le> Suc j" using Suc.prems by simp_all
    from Suc.IH [OF this run] show ?thesis using True dr by simp
  next
    case False
    let ?d = "data[nc := converted_pixel E m (data ! j)]"
    from False Suc.prems(3) have run: "filter_loop E m fs k (Suc j) ?d (Suc nc) = (data', nc')"
      by (simp add: Let_def)
    have a: "Suc j + k = length ?d" "Suc nc \<le> Suc j" using Suc.prems by simp_all
    have nclt: "nc < length data" using Suc.prems(2) jlt by simp
    have t: "take (Suc nc) ?d = take nc data @ [converted_pixel E m (data ! j)]"
      using nclt by (simp add: take_Suc_conv_app_nth)
    have d: "drop (Suc j) ?d = drop (Suc j) data"
      using Suc.prems(2) by simp
    from Suc.IH [OF a run] show ?thesis using False dr t d by simp
  qed
qed

lemma filter_loop_result:
  assumes "filter_loop E m fs (length data) 0 data 0 = (data', nc')"
  shows "take nc' data' =
           map (converted_pixel E m) (filter (\<lambda>c. \<not> matches_exact_fixed fs c) data)"
    and "nc' = length (filter (\<lambda>c. \<not> matches_exact_fixed fs c) data)"
proof -
  have inv: "length data' = length data \<and> nc' \<le> length data
   \<and> take nc' data' =
       take 0 data @ map (converted_pixel E m)
                         (filter (\<lambda>c. \<not> matches_exact_fixed fs c) (drop 0 data))"
    by (rule filter_loop_invariant [OF _ _ assms]) simp_all
  then show t: "take nc' data' =
           map (converted_pixel E m) (filter (\<lambda>c. \<not> matches_exact_fixed fs c) data)"
    by simp
  have l: "nc' \<le> length data'" using inv by simp
  have "nc' = length (take nc' data')" using l by simp
  also have "\<dots> = length (map (converted_pixel E m)
                        (filter (\<lambda>c. \<not> matches_exact_fixed fs c) data))"
    by (simp only: t)
  finally show "nc' = length (filter (\<lambda>c. \<not> matches_exact_fixed fs c) data)"
    by simp
qed

lemma liq_image_released: "liq_destroy LiqImage (liq_create LiqImage w) = w"
  by (simp add: liq_destroy_def liq_create_def)

lemma image_loop_small_capacity:
  "\<not> 1 < cap \<Longrightarrow> image_loop E m fs cap imgs h nq w = (Some (h, nq), w)"
  by (cases imgs) simp_all

lemma image_loop_loaded:
  assumes "1 < cap" and "\<forall>img\<in>set imgs. image_load E img \<noteq> None"
  shows "image_loop E m fs cap imgs h nq w =
     (Some (h\<lparr>hist_rows := hist_rows h @ filter (\<lambda>row. row \<noteq> []) (map (image_row E m fs) imgs)\<rparr>,
            nq \<or> filter (\<lambda>row. row \<noteq> []) (map (image_row E m fs) imgs) \<noteq> []),
      w\<lparr>loads := loads w @ imgs\<rparr>)"
  using assms(2)
proof (induction imgs arbitrary: h nq w)
  case Nil
  then show ?case by simp
next
  case (Cons img imgs)
  from Cons.prems obtain data where ld: "image_load E img = Some data" by auto
  obtain data' nc' where fl: "filter_loop E m fs (length data) 0 data 0 = (data', nc')"
    by (cases "filter_loop E m fs (length data) 0 data 0")
  have row: "take nc' data' = image_row E m fs img"
    using filter_loop_result(1) [OF fl] ld by (simp add: image_row_def)
  have nc: "nc' = length (image_row E m fs img)"
    using filter_loop_result(2) [OF fl] ld by (simp add: image_row_def)
  have rest: "\<forall>img\<in>set imgs. image_load E img \<noteq> None" using Cons.prems by simp
  show ?case
  proof (cases "0 < nc'")
    case True
    then have ne: "image_row E m fs img \<noteq> []" using nc by auto
    have "image_loop E m fs cap (img # imgs) h nq w =
          image_loop E m fs cap imgs (h\<lparr>hist_rows := hist_rows h @ [image_row E m fs img]\<rparr>) True
            (w\<lparr>loads := loads w @ [img]\<rparr>)"
      using assms(1) ld fl True row by (simp add: liq_image_released)
    also have "\<dots> = (Some (h\<lparr>hist_rows := hist_rows h @
                    filter (\<lambda>row. row \<noteq> []) (map (image_row E m fs) (img # imgs))\<rparr>,
            nq \<or> filter (\<lambda>row. row \<noteq> []) (map (image_row E m fs) (img # imgs)) \<noteq> []),
      w\<lparr>loads := loads w @ img # imgs\<rparr>)"
      using ne by (simp add: Cons.IH [OF rest])
    finally show ?thesis .
  next
    case False
    then have e: "image_row E m fs img = []" using nc by simp
    have "image_loop E m fs cap (img # imgs) h nq w =
          image_loop E m fs cap imgs h nq (w\<lparr>loads := loads w @ [img]\<rparr>)"
      using assms(1) ld fl False by simp
    also have "\<dots> = (Some (h\<lparr>hist_rows := hist_rows h @
                    filter (\<lambda>row. row \<noteq> []) (map (image_row E m fs) (img # imgs))\<rparr>,
            nq \<or> filter (\<lambda>row. row \<noteq> []) (map (image_row E m fs) (img # imgs)) \<noteq> []),
      w\<lparr>loads := loads w @ img # imgs\<rparr>)"
      using e by (simp add: Cons.IH [OF rest])
    finally show ?thesis .
  qed
qed

lemma image_loop_failed:
  assumes "1 < cap" and "\<forall>x\<in>set pre. image_load E x \<noteq> None" and "image_load E img = None"
  shows "image_loop E m fs cap (pre @ img # post) h nq w =
     (None, liq_destroy LiqAttr (liq_destroy LiqHistogram (w\<lparr>loads := loads w @ pre @ [img]\<rparr>)))"
  using assms(2)
proof (induction pre arbitrary: h nq w)
  case Nil
  then show ?case using assms(1,3) by simp
next
  case (Cons x pre)
  from Cons.prems obtain data where ld: "image_load E x = Some data" by auto
  obtain data' nc' where fl: "filter_loop E m fs (length data) 0 data 0 = (data', nc')"
    by (cases "filter_loop E m fs (length data) 0 data 0")
  have rest: "\<forall>x\<in>set pre. image_load E x \<noteq> None" using Cons.prems by simp
  show ?case
    using assms(1) ld fl
    by (cases "0 < nc'") (simp_all add: Let_def liq_image_released Cons.IH [OF rest])
qed


lemma image_row_seeded:
  "image_row E m (map (seed_entry E m) fs) img =
     map (converted_pixel E m)
       (surviving_pixels fs (case image_load E img of None \<Rightarrow> [] | Some data \<Rightarrow> data))"
proof -
  have "matches_exact_fixed (map (seed_entry E m) fs) c = is_exact_fixed_color fs c" for c
    by (simp only: matches_exact_fixed_seeded)
       (simp add: matches_exact_fixed_iff is_exact_fixed_color_def same_rgb_def)
  then show ?thesis
    by (simp add: image_row_def surviving_pixels_def)
qed

lemma image_row_seeded_fun:
  "image_row E m (map (seed_entry E m) fs) =
     (\<lambda>img. map (converted_pixel E m)
       (surviving_pixels fs (case image_load E img of None \<Rightarrow> [] | Some data \<Rightarrow> data)))"
  by (rule ext) (rule image_row_seeded)

lemma resolve_fixed_world:
  assumes "resolve_fixed E p lp s w = (st, p', w')"
  shows "quantized w' = quantized w" and "loads w' = loads w"
  using assms
  by (auto simp: resolve_fixed_def liq_destroy_def Let_def split: sum.splits prod.splits)

lemma resolve_fixed_live:
  assumes "resolve_fixed E p lp s w = (Success, p', w')"
  shows "live w' = remove1 LiqAttr (remove1 LiqHistogram (remove1 LiqResult (live w)))"
  using assms
  by (auto simp: resolve_fixed_def liq_destroy_def Let_def split: sum.splits prod.splits)

lemma image_loop_rows:
  assumes "1 < maxEntries p - count_exact (fixedEntries p)
             \<longrightarrow> (\<forall>img\<in>set (images p). image_load E img \<noteq> None)"
  shows "image_loop E (mode p) (map (seed_entry E (mode p)) (fixedEntries p))
           (maxEntries p - count_exact (fixedEntries p)) (images p) h False w =
         (Some (h\<lparr>hist_rows := hist_rows h @ submitted_rows E p\<rparr>, submitted_rows E p \<noteq> []),
          if 1 < maxEntries p - count_exact (fixedEntries p)
          then w\<lparr>loads := loads w @ images p\<rparr> else w)"
proof (cases "1 < maxEntries p - count_exact (fixedEntries p)")
  case True
  with assms have ld: "\<forall>img\<in>set (images p). image_load E img \<noteq> None" by simp
  have rows: "filter (\<lambda>row. row \<noteq> [])
        (map (image_row E (mode p) (map (seed_entry E (mode p)) (fixedEntries p))) (images p))
      = submitted_rows E p"
    using True by (simp add: submitted_rows_def image_row_seeded_fun)
  show ?thesis
    using True by (simp add: image_loop_loaded [OF True ld] rows)
next
  case False
  then show ?thesis
    by (simp add: image_loop_small_capacity submitted_rows_def)
qed

text \<open>
  Let every image load (when the quantization capacity exceeds 1, so that images are
  processed at all). The rows \<^verbatim>\<open>palette_generate_with_images\<close> adds to the
  histogram are exactly \<open>submitted_rows\<close>: for each image in order, the conversions of
  the pixels whose red, green and blue equal those of no exact fixed entry, rows without
  pixels left out. So no pixel that matches an exact fixed colour reaches the quantizer.
  When some row is submitted, that histogram is the one handed to the quantizer. When no
  row is submitted (every pixel filtered, no image, or a capacity of at most 1), the
  quantizer is not called and the function goes on to the resolution of the fixed entries
  with the null result palette it started with.
\<close>

lemma exact_pixels_excluded:
  assumes "1 < maxEntries p - count_exact (fixedEntries p)
             \<longrightarrow> (\<forall>img\<in>set (images p). image_load E img \<noteq> None)"
  shows "\<exists>st p' w'. palette_generate_with_images E p w = (st, p', w')
     \<and> (submitted_rows E p \<noteq> [] \<longrightarrow>
          (\<exists>h. quantized w' = quantized w @ [h] \<and> hist_rows h = submitted_rows E p))
     \<and> (submitted_rows E p = [] \<longrightarrow>
          quantized w' = quantized w
          \<and> (\<exists>w3. (st, p', w') =
                resolve_fixed E (p\<lparr>fixedEntries := map (seed_entry E (mode p)) (fixedEntries p)\<rparr>)
                  None (entries p, - 1) w3))"
proof -
  let ?fes = "map (seed_entry E (mode p)) (fixedEntries p)"
  let ?cap = "maxEntries p - count_exact (fixedEntries p)"
  let ?w2 = "liq_create LiqHistogram (liq_create LiqAttr w)"
  let ?w3 = "if 1 < ?cap then ?w2\<lparr>loads := loads ?w2 @ images p\<rparr> else ?w2"
  let ?p1 = "p\<lparr>fixedEntries := ?fes\<rparr>"
  obtain h0 where seed: "seed_fixed E (mode p) (fixedEntries p) \<lparr>hist_fixed = [], hist_rows = []\<rparr>
      = (?fes, h0)" and h0: "hist_rows h0 = []"
    by (simp add: seed_fixed_result)
  let ?h = "h0\<lparr>hist_rows := hist_rows h0 @ submitted_rows E p\<rparr>"
  have loop: "image_loop E (mode p) ?fes ?cap (images p) h0 False ?w2 =
      (Some (?h, submitted_rows E p \<noteq> []), ?w3)"
    by (rule image_loop_rows [OF assms])
  have q3: "quantized ?w3 = quantized w"
    by (simp add: liq_create_def)
  show ?thesis
  proof (cases "submitted_rows E p = []")
    case True
    have run: "palette_generate_with_images E p w = resolve_fixed E ?p1 None (entries p, - 1) ?w3"
      using seed loop True by (simp add: palette_generate_with_images_def Let_def)
    obtain st p' w' where r: "resolve_fixed E ?p1 None (entries p, - 1) ?w3 = (st, p', w')"
      by (cases "resolve_fixed E ?p1 None (entries p, - 1) ?w3")
    have q: "quantized w' = quantized w"
      using resolve_fixed_world(1) [OF r] q3 by simp
    have ex: "\<exists>w3. (st, p', w') = resolve_fixed E ?p1 None (entries p, - 1) w3"
      using r by (intro exI [of _ ?w3]) simp
    have "palette_generate_with_images E p w = (st, p', w')"
      using run r by simp
    with q ex True show ?thesis by blast
  next
    case False
    let ?w4 = "?w3\<lparr>quantized := quantized ?w3 @ [?h]\<rparr>"
    let ?attr = "\<lparr>attr_speed = quantizeSpeed p, attr_max_colors = ?cap\<rparr>"
    have hr: "hist_rows ?h = submitted_rows E p" using h0 by simp
    have q4: "quantized ?w4 = quantized w @ [?h]" using q3 by simp
    show ?thesis
    proof (cases "liq_quantize E ?h ?attr")
      case None
      have "palette_generate_with_images E p w =
          (Failure QuantizeFailure, ?p1, liq_destroy LiqAttr (liq_destroy LiqHistogram ?w4))"
        using seed loop False None by (simp add: palette_generate_with_images_def Let_def)
      moreover have "quantized (liq_destroy LiqAttr (liq_destroy LiqHistogram ?w4))
          = quantized w @ [?h]"
        using q4 by (simp add: liq_destroy_def)
      ultimately show ?thesis using False hr by auto
    next
      case (Some liqpalette)
      show ?thesis
      proof (cases "store_loop E (mode p) liqpalette 0 (entries p) (- 1)")
        case (Inl f)
        have "palette_generate_with_images E p w = (Crash f, ?p1, liq_create LiqResult ?w4)"
          using seed loop False Some Inl by (simp add: palette_generate_with_images_def Let_def)
        moreover have "quantized (liq_create LiqResult ?w4) = quantized w @ [?h]"
          using q4 by (simp add: liq_create_def)
        ultimately show ?thesis using False hr by auto
      next
        case (Inr s)
        have run: "palette_generate_with_images E p w =
            resolve_fixed E ?p1 (Some (length liqpalette)) s (liq_create LiqResult ?w4)"
          using seed loop False Some Inr by (simp add: palette_generate_with_images_def Let_def)
        obtain st p' w' where r:
          "resolve_fixed E ?p1 (Some (length liqpalette)) s (liq_create LiqResult ?w4) = (st, p', w')"
          by (cases "resolve_fixed E ?p1 (Some (length liqpalette)) s (liq_create LiqResult ?w4)")
        have "quantized w' = quantized w @ [?h]"
          using resolve_fixed_world(1) [OF r] q4 by (simp add: liq_create_def)
        with run r False hr show ?thesis by auto
      qed
    qed
  qed
qed


lemma exact_pixels_excluded_example:
  "\<exists>st p' w'. palette_generate_with_images (sample_env sample_files (Some [px 1 2 3, px 4 5 6]))
        (sample_palette ''p'' [sample_image ''a.png''] 256 [fixed_entry 0 True (px 0 0 0)])
        sample_world = (st, p', w')
     \<and> (\<exists>h. quantized w' = [h] \<and> hist_rows h = [[px 1 2 3, px 4 5 6]])"
proof -
  let ?E = "sample_env sample_files (Some [px 1 2 3, px 4 5 6])"
  let ?p = "sample_palette ''p'' [sample_image ''a.png''] 256 [fixed_entry 0 True (px 0 0 0)]"
  have ld: "1 < maxEntries ?p - count_exact (fixedEntries ?p)
             \<longrightarrow> (\<forall>img\<in>set (images ?p). image_load ?E img \<noteq> None)"
    by (simp add: sample_palette_def sample_env_def sample_image_def sample_files_def)
  have rows: "submitted_rows ?E ?p = [[px 1 2 3, px 4 5 6]]"
    by (simp add: submitted_rows_def surviving_pixels_def is_exact_fixed_color_def same_rgb_def
        converted_pixel_def sample_palette_def sample_env_def sample_image_def sample_files_def
        sample_convert_def fixed_entry_def px_def)
  from exact_pixels_excluded [OF ld, of sample_world] rows
  show ?thesis by (auto simp: sample_world_def)
qed


subsection \<open>Builtin palettes\<close>

lemma length_palette_xlibc: "length palette_xlibc = 768"
  by (simp add: palette_xlibc_def)

lemma length_palette_rgb332: "length palette_rgb332 = 768"
  by (simp add: palette_rgb332_def)

lemma builtin_loop_Inr:
  "i + k \<le> PALETTE_MAX_ENTRIES \<Longrightarrow> 3 * (i + k) \<le> length builtin \<Longrightarrow>
   builtin_loop E builtin m k i T =
     Inr (\<lambda>j. if i \<le> j \<and> j < i + k
              then (T j)\<lparr>color := color_convert E m ((color (T j))\<lparr>rgb := builtin_color builtin j\<rparr>)\<rparr>
              else T j)"
proof (induction k arbitrary: i T)
  case 0
  then show ?case by (auto simp: fun_eq_iff)
next
  case (Suc k)
  have inb: "\<not> (PALETTE_MAX_ENTRIES \<le> i \<or> length builtin \<le> i * 3 + 2)"
    using Suc.prems by auto
  have "builtin_loop E builtin m (Suc k) i T =
        builtin_loop E builtin m k (Suc i)
          (T(i := (T i)\<lparr>color := color_convert E m ((color (T i))\<lparr>rgb := builtin_color builtin i\<rparr>)\<rparr>))"
    using inb by simp
  also have "\<dots> = Inr (\<lambda>j. if i \<le> j \<and> j < i + Suc k
              then (T j)\<lparr>color := color_convert E m ((color (T j))\<lparr>rgb := builtin_color builtin j\<rparr>)\<rparr>
              else T j)"
    using Suc.prems by (subst Suc.IH) (auto simp: fun_eq_iff)
  finally show ?case .
qed

lemma palette_generate_builtin_name:
  assumes "palette_name p = ''xlibc'' \<or> palette_name p = ''rgb332''"
  shows "palette_generate E p converts w =
     (Success,
      p\<lparr>entries := (\<lambda>i. if i < 256
          then (entries p i)\<lparr>color :=
                 color_convert E COLOR_MODE_1555_GBGR
                   ((color (entries p i))\<lparr>rgb :=
                      builtin_color (if palette_name p = ''xlibc'' then palette_xlibc
                                     else palette_rgb332) i\<rparr>)\<rparr>
          else entries p i),
        numEntries := 256\<rparr>,
      w)"
proof -
  let ?tab = "if palette_name p = ''xlibc'' then palette_xlibc else palette_rgb332"
  have len: "length ?tab = 768"
    by (simp add: length_palette_xlibc length_palette_rgb332)
  have loop: "builtin_loop E ?tab COLOR_MODE_1555_GBGR PALETTE_MAX_ENTRIES 0 (entries p) =
     Inr (\<lambda>j. if 0 \<le> j \<and> j < 0 + PALETTE_MAX_ENTRIES
              then (entries p j)\<lparr>color := color_convert E COLOR_MODE_1555_GBGR
                     ((color (entries p j))\<lparr>rgb := builtin_color ?tab j\<rparr>)\<rparr>
              else entries p j)"
    by (rule builtin_loop_Inr) (simp_all add: len PALETTE_MAX_ENTRIES_def)
  show ?thesis
  proof (cases "palette_name p = ''xlibc''")
    case True
    then show ?thesis
      using loop
      by (simp add: palette_generate_def palette_generate_builtin_def PALETTE_MAX_ENTRIES_def)
  next
    case False
    with assms have "palette_name p = ''rgb332''" by simp
    with False show ?thesis
      using loop
      by (simp add: palette_generate_def palette_generate_builtin_def PALETTE_MAX_ENTRIES_def)
  qed
qed

text \<open>
  C3, as the code has it. For a palette named \<^verbatim>\<open>xlibc\<close> or \<^verbatim>\<open>rgb332\<close>,
  \<^verbatim>\<open>palette_generate\<close> succeeds with \<^verbatim>\<open>numEntries = 256\<close>; the colour of
  each of the 256 entries is the triplet of the builtin table at that position, with alpha
  255, converted with \<^verbatim>\<open>COLOR_MODE_1555_GBGR\<close> (the mode the call site passes, not
  the mode of the palette). The other fields of the entries, the \<^verbatim>\<open>valid\<close> flag
  among them, the rest of the palette and the outside world are left as they were: no
  image is loaded, nothing is quantized, no fixed entry is read.
\<close>

theorem builtin_bypass:
  assumes "palette_name p = ''xlibc'' \<or> palette_name p = ''rgb332''"
  shows "\<exists>p'. palette_generate E p converts w = (Success, p', w)
           \<and> numEntries p' = 256
           \<and> p' = p\<lparr>entries := entries p', numEntries := 256\<rparr>
           \<and> (\<forall>i. entries p' i =
                 (if i < PALETTE_MAX_ENTRIES
                  then (entries p i)\<lparr>color :=
                         color_convert E COLOR_MODE_1555_GBGR
                           ((color (entries p i))\<lparr>rgb :=
                              builtin_color (if palette_name p = ''xlibc'' then palette_xlibc
                                             else palette_rgb332) i\<rparr>)\<rparr>
                  else entries p i))"
  using palette_generate_builtin_name [OF assms, of E converts w]
  by (simp add: PALETTE_MAX_ENTRIES_def)

theorem builtin_bypass_witness:
  "\<exists>p'. palette_generate (sample_env sample_files None)
           (sample_palette ''rgb332'' [sample_image ''a.png''] 256
              [fixed_entry 0 True (px 0 0 0)]) [] sample_world
         = (Success, p', sample_world)
       \<and> numEntries p' = 256
       \<and> color (entries p' 1) =
           \<lparr>rgb = \<lparr>rgb_r = 0x00, rgb_g = 0x00, rgb_b = 0x68, rgb_a = 255\<rparr>, target = 1555\<rparr>"
proof -
  let ?p = "sample_palette ''rgb332'' [sample_image ''a.png''] 256 [fixed_entry 0 True (px 0 0 0)]"
  have name: "palette_name ?p = ''xlibc'' \<or> palette_name ?p = ''rgb332''"
    by (simp add: sample_palette_def)
  have tab: "builtin_color palette_rgb332 1 =
      \<lparr>rgb_r = 0x00, rgb_g = 0x00, rgb_b = 0x68, rgb_a = 255\<rparr>"
    by (simp add: builtin_color_def palette_rgb332_def)
  from builtin_bypass [OF name, of "sample_env sample_files None" "[]" sample_world]
  obtain p' where run: "palette_generate (sample_env sample_files None) ?p [] sample_world
        = (Success, p', sample_world)"
    and n: "numEntries p' = 256"
    and ent: "\<forall>i. entries p' i =
                 (if i < PALETTE_MAX_ENTRIES
                  then (entries ?p i)\<lparr>color :=
                         color_convert (sample_env sample_files None) COLOR_MODE_1555_GBGR
                           ((color (entries ?p i))\<lparr>rgb :=
                              builtin_color (if palette_name ?p = ''xlibc'' then palette_xlibc
                                             else palette_rgb332) i\<rparr>)\<rparr>
                  else entries ?p i)"
    by blast
  have "color (entries p' 1) =
           \<lparr>rgb = \<lparr>rgb_r = 0x00, rgb_g = 0x00, rgb_b = 0x68, rgb_a = 255\<rparr>, target = 1555\<rparr>"
    using ent [rule_format, of 1] tab
    by (simp add: PALETTE_MAX_ENTRIES_def sample_palette_def sample_env_def sample_convert_def
        empty_slot_def)
  with run n show ?thesis by blast
qed

text \<open>
  The claim as the spec words it fails on a palette named \<^verbatim>\<open>xlibc\<close> whose mode is
  not \<^verbatim>\<open>COLOR_MODE_1555_GBGR\<close> and whose table starts empty: entry 0 is not valid
  afterwards, and its colour is not the conversion to the palette's mode.
\<close>

theorem builtin_bypass_counterexample:
  "\<not> valid (entries (fst (snd (palette_generate (sample_env sample_files None)
         ((sample_palette ''xlibc'' [] 256 [])\<lparr>mode := COLOR_MODE_OTHER 0\<rparr>) [] sample_world))) 0)
   \<and> color (entries (fst (snd (palette_generate (sample_env sample_files None)
         ((sample_palette ''xlibc'' [] 256 [])\<lparr>mode := COLOR_MODE_OTHER 0\<rparr>) [] sample_world))) 0)
     \<noteq> color_convert (sample_env sample_files None) (COLOR_MODE_OTHER 0)
         ((color empty_slot)\<lparr>rgb := builtin_color palette_xlibc 0\<rparr>)"
proof -
  let ?p = "(sample_palette ''xlibc'' [] 256 [])\<lparr>mode := COLOR_MODE_OTHER 0\<rparr>"
  have name: "palette_name ?p = ''xlibc'' \<or> palette_name ?p = ''rgb332''"
    by (simp add: sample_palette_def)
  show ?thesis
    apply (simp only: palette_generate_builtin_name [OF name])
    apply (simp add: sample_palette_def sample_env_def sample_convert_def empty_slot_def)
    done
qed

subsection \<open>The capacity guard\<close>

lemma palette_add_image_frame:
  "palette_add_image E p x = (ret, p') \<Longrightarrow> p' = p\<lparr>images := images p'\<rparr>"
  by (auto simp: palette_add_image_def split: option.splits)

lemma add_images_frame:
  "add_images E p xs = (ret, p') \<Longrightarrow> p' = p\<lparr>images := images p'\<rparr>"
proof (induction xs arbitrary: p)
  case Nil
  then show ?case by simp
next
  case (Cons x xs)
  obtain r1 p1 where a: "palette_add_image E p x = (r1, p1)"
    by (cases "palette_add_image E p x")
  have f1: "p1 = p\<lparr>images := images p1\<rparr>"
    using a by (rule palette_add_image_frame)
  show ?case
  proof (cases "r1 = 0")
    case True
    with Cons.prems a have "add_images E p1 xs = (ret, p')" by simp
    from Cons.IH [OF this] have "p' = p1\<lparr>images := images p'\<rparr>" .
    then have "p' = (p\<lparr>images := images p1\<rparr>)\<lparr>images := images p'\<rparr>"
      using f1 by simp
    then show ?thesis by simp
  next
    case False
    with Cons.prems a have "p' = p1" by simp
    with f1 show ?thesis by simp
  qed
qed

lemma palette_automatic_build_frame:
  "palette_automatic_build E p cs = (ret, p') \<Longrightarrow> p' = p\<lparr>images := images p'\<rparr>"
proof (induction cs arbitrary: p)
  case Nil
  then show ?case by simp
next
  case (Cons c cs)
  show ?case
  proof (cases "palette_name p \<noteq> paletteName c")
    case True
    with Cons.prems have "palette_automatic_build E p cs = (ret, p')" by simp
    from Cons.IH [OF this] show ?thesis .
  next
    case same: False
    obtain r1 p1 where a: "add_images E p (map path (convert_images c)) = (r1, p1)"
      by (cases "add_images E p (map path (convert_images c))")
    have f1: "p1 = p\<lparr>images := images p1\<rparr>"
      using a by (rule add_images_frame)
    show ?thesis
    proof (cases "r1 = 0")
      case False
      with Cons.prems same a have "p' = p1" by simp
      with f1 show ?thesis by simp
    next
      case r1: True
      show ?thesis
      proof (cases "tilesetGroup c")
        case None
        with Cons.prems same a r1 have "palette_automatic_build E p1 cs = (ret, p')" by simp
        from Cons.IH [OF this] have "p' = p1\<lparr>images := images p'\<rparr>" .
        then have "p' = (p\<lparr>images := images p1\<rparr>)\<lparr>images := images p'\<rparr>"
          using f1 by simp
        then show ?thesis by simp
      next
        case (Some grp)
        obtain r2 p2 where b:
          "add_images E p1 (map (\<lambda>t. path (tileset_image t)) (tilesets grp)) = (r2, p2)"
          by (cases "add_images E p1 (map (\<lambda>t. path (tileset_image t)) (tilesets grp))")
        have f2: "p2 = p1\<lparr>images := images p2\<rparr>"
          using b by (rule add_images_frame)
        then have f2': "p2 = (p\<lparr>images := images p1\<rparr>)\<lparr>images := images p2\<rparr>"
          using f1 by simp
        show ?thesis
        proof (cases "r2 = 0")
          case False
          with Cons.prems same a r1 Some b have "p' = p2" by simp
          with f2' show ?thesis by simp
        next
          case True
          with Cons.prems same a r1 Some b have "palette_automatic_build E p2 cs = (ret, p')"
            by simp
          from Cons.IH [OF this] have "p' = p2\<lparr>images := images p'\<rparr>" .
          then have "p' = ((p\<lparr>images := images p1\<rparr>)\<lparr>images := images p2\<rparr>)\<lparr>images := images p'\<rparr>"
            using f2' by simp
          then show ?thesis by simp
        qed
      qed
    qed
  qed
qed

text \<open>The palette the guards of palette_generate look at.\<close>

lemma collected_frame:
  assumes "(if automatic p then palette_automatic_build E p converts else (0, p)) = (ret, p1)"
  shows "p1 = p\<lparr>images := images p1\<rparr>"
proof (cases "automatic p")
  case True
  with assms show ?thesis by (simp add: palette_automatic_build_frame)
next
  case False
  with assms show ?thesis by simp
qed

lemma guard_rejects:
  assumes big: "maxEntries p < numFixedEntries p"
    and nb: "palette_name p \<noteq> ''xlibc''" "palette_name p \<noteq> ''rgb332''"
  shows "\<exists>e p'. palette_generate E p converts w = (Failure e, p', w)
           \<and> p' = p\<lparr>images := images p'\<rparr>
           \<and> (e = (if automatic p \<and> fst (palette_automatic_build E p converts) \<noteq> 0
                    then AutomaticBuildFailure else TooManyFixedColors))"
proof -
  obtain ret p1 where c:
    "(if automatic p then palette_automatic_build E p converts else (0, p)) = (ret, p1)"
    by (cases "if automatic p then palette_automatic_build E p converts else (0, p)")
  have f: "p1 = p\<lparr>images := images p1\<rparr>"
    using c by (rule collected_frame)
  have fe: "fixedEntries p1 = fixedEntries p" and me: "maxEntries p1 = maxEntries p"
    by (subst f, simp)+
  have big1: "maxEntries p1 < numFixedEntries p1"
    using big by (simp add: numFixedEntries_def fe me)
  show ?thesis
  proof (cases "ret = 0")
    case True
    have "palette_generate E p converts w = (Failure TooManyFixedColors, p1, w)"
      using nb c True big1 by (simp add: palette_generate_def)
    moreover have "\<not> (automatic p \<and> fst (palette_automatic_build E p converts) \<noteq> 0)"
      using c True by (auto split: if_splits)
    ultimately show ?thesis using f by auto
  next
    case False
    have "palette_generate E p converts w = (Failure AutomaticBuildFailure, p1, w)"
      using nb c False by (simp add: palette_generate_def)
    moreover have "automatic p \<and> fst (palette_automatic_build E p converts) \<noteq> 0"
      using c False by (auto split: if_splits)
    ultimately show ?thesis using f by auto
  qed
qed

text \<open>
  C4, as the code has it. For a palette with more fixed entries than \<^verbatim>\<open>maxEntries\<close>
  and a name that is not builtin, \<^verbatim>\<open>palette_generate\<close> fails and leaves the entry
  table, \<^verbatim>\<open>numEntries\<close> and the fixed entries as they were. The failure is the
  one of the capacity guard, unless the palette is automatic and the collection of its
  images has already failed: that check comes first and returns its own failure.
\<close>

theorem capacity_guard:
  assumes "maxEntries p < numFixedEntries p"
    and "palette_name p \<noteq> ''xlibc''" and "palette_name p \<noteq> ''rgb332''"
  shows "\<exists>e p'. palette_generate E p converts w = (Failure e, p', w)
           \<and> entries p' = entries p \<and> numEntries p' = numEntries p
           \<and> fixedEntries p' = fixedEntries p
           \<and> e = (if automatic p \<and> fst (palette_automatic_build E p converts) \<noteq> 0
                   then AutomaticBuildFailure else TooManyFixedColors)"
proof -
  from guard_rejects [OF assms, of E converts w]
  obtain e p' where run: "palette_generate E p converts w = (Failure e, p', w)"
    and f: "p' = p\<lparr>images := images p'\<rparr>"
    and e: "e = (if automatic p \<and> fst (palette_automatic_build E p converts) \<noteq> 0
                   then AutomaticBuildFailure else TooManyFixedColors)"
    by blast
  have "entries p' = entries p" "numEntries p' = numEntries p" "fixedEntries p' = fixedEntries p"
    by (subst f, simp)+
  with run e show ?thesis by blast
qed

theorem capacity_guard_witness:
  "\<exists>p'. palette_generate (sample_env sample_files None)
          (sample_palette ''p'' [sample_image ''a.png''] 1
             [fixed_entry 0 True (px 0 0 0), fixed_entry 1 False (px 9 9 9)]) [] sample_world
        = (Failure TooManyFixedColors, p', sample_world)
      \<and> entries p' = (\<lambda>i. empty_slot)"
proof -
  let ?p = "sample_palette ''p'' [sample_image ''a.png''] 1
             [fixed_entry 0 True (px 0 0 0), fixed_entry 1 False (px 9 9 9)]"
  have h: "maxEntries ?p < numFixedEntries ?p" "palette_name ?p \<noteq> ''xlibc''"
    "palette_name ?p \<noteq> ''rgb332''"
    by (simp_all add: sample_palette_def numFixedEntries_def)
  have a: "\<not> automatic ?p" and t: "entries ?p = (\<lambda>i. empty_slot)"
    by (simp_all add: sample_palette_def)
  from capacity_guard [OF h, of "sample_env sample_files None" "[]" sample_world] a t
  show ?thesis by auto
qed

text \<open>
  The claim as the spec words it fails on an automatic palette with too many fixed entries
  when a matching conversion job holds an image with a null path: the failure is the one
  of the automatic collection.
\<close>

theorem capacity_guard_counterexample:
  "fst (palette_generate (sample_env sample_files None)
          ((sample_palette ''p'' [] 1
             [fixed_entry 0 True (px 0 0 0), fixed_entry 1 False (px 9 9 9)])\<lparr>automatic := True\<rparr>)
          [\<lparr>paletteName = ''p'', convert_images = [\<lparr>path = None, name = None\<rparr>],
            tilesetGroup = None\<rparr>]
          sample_world)
   = Failure AutomaticBuildFailure"
  by (simp add: palette_generate_def sample_palette_def palette_add_image_def)


subsection \<open>The number of entries\<close>





lemma nonexact_loop_null_result:
  "nonexact_loop fs None s = Inr s' \<Longrightarrow> s' = s"
proof (induction fs)
  case Nil
  then show ?case by simp
next
  case (Cons fe fs)
  show ?case
  proof (cases "exact fe")
    case True
    with Cons show ?thesis by simp
  next
    case False
    with Cons.prems show ?thesis by (simp add: place_nonexact_def split: prod.splits)
  qed
qed





lemma image_loop_reported:
  "image_loop E m fs cap imgs h nq w = (r, w') \<Longrightarrow> reported w' = reported w"
proof (induction imgs arbitrary: h nq w)
  case Nil
  then show ?case by simp
next
  case (Cons img imgs)
  show ?case
  proof (cases "1 < cap")
    case False
    with Cons.prems show ?thesis by simp
  next
    case cap: True
    show ?thesis
    proof (cases "image_load E img")
      case None
      with Cons.prems cap show ?thesis
        by (auto simp: liq_destroy_def)
    next
      case (Some data)
      obtain data' nc where fl: "filter_loop E m fs (length data) 0 data 0 = (data', nc)"
        by (cases "filter_loop E m fs (length data) 0 data 0")
      show ?thesis
      proof (cases "0 < nc")
        case True
        with Cons.prems cap Some fl
        have "image_loop E m fs cap imgs (h\<lparr>hist_rows := hist_rows h @ [take nc data']\<rparr>) True
                (liq_destroy LiqImage (liq_create LiqImage (w\<lparr>loads := loads w @ [img]\<rparr>)))
              = (r, w')"
          by (simp add: Let_def)
        from Cons.IH [OF this] show ?thesis by (simp add: liq_destroy_def liq_create_def)
      next
        case False
        with Cons.prems cap Some fl
        have "image_loop E m fs cap imgs h nq (w\<lparr>loads := loads w @ [img]\<rparr>) = (r, w')"
          by (simp add: Let_def)
        from Cons.IH [OF this] show ?thesis by simp
      qed
    qed
  qed
qed

lemma with_images_success:
  assumes "palette_generate_with_images E p w = (Success, p', w')"
  shows "\<exists>lp s w3. resolve_fixed E (p\<lparr>fixedEntries := fst (seed_fixed E (mode p) (fixedEntries p)
                       \<lparr>hist_fixed = [], hist_rows = []\<rparr>)\<rparr>) lp s w3 = (Success, p', w')
           \<and> reported w3 = reported w
           \<and> ((lp = None \<and> s = (entries p, - 1))
              \<or> (\<exists>qs. lp = Some (length qs)
                    \<and> store_loop E (mode p) qs 0 (entries p) (- 1) = Inr s))"
proof -
  obtain fes hist where seed:
    "seed_fixed E (mode p) (fixedEntries p) \<lparr>hist_fixed = [], hist_rows = []\<rparr> = (fes, hist)"
    by (cases "seed_fixed E (mode p) (fixedEntries p) \<lparr>hist_fixed = [], hist_rows = []\<rparr>")
  have fes_eq: "fst (seed_fixed E (mode p) (fixedEntries p) \<lparr>hist_fixed = [], hist_rows = []\<rparr>)
      = fes"
    using seed by simp
  let ?cap = "maxEntries p - count_exact (fixedEntries p)"
  let ?w2 = "liq_create LiqHistogram (liq_create LiqAttr w)"
  let ?attr = "\<lparr>attr_speed = quantizeSpeed p, attr_max_colors = ?cap\<rparr>"
  obtain r w3 where loop: "image_loop E (mode p) fes ?cap (images p) hist False ?w2 = (r, w3)"
    by (cases "image_loop E (mode p) fes ?cap (images p) hist False ?w2")
  have rep3: "reported w3 = reported w"
    using image_loop_reported [OF loop] by (simp add: liq_create_def)
  from assms seed loop obtain hist' nq where r: "r = Some (hist', nq)"
    by (cases r) (auto simp: palette_generate_with_images_def Let_def)
  show ?thesis
  proof (cases nq)
    case False
    with assms seed loop r
    have "resolve_fixed E (p\<lparr>fixedEntries := fes\<rparr>) None (entries p, - 1) w3 = (Success, p', w')"
      by (simp add: palette_generate_with_images_def Let_def)
    with rep3 show ?thesis unfolding fes_eq by blast
  next
    case True
    let ?w4 = "w3\<lparr>quantized := quantized w3 @ [hist']\<rparr>"
    from assms seed loop r True obtain qs where q: "liq_quantize E hist' ?attr = Some qs"
      by (cases "liq_quantize E hist' ?attr") (auto simp: palette_generate_with_images_def Let_def)
    from assms seed loop r True q obtain s where
      st: "store_loop E (mode p) qs 0 (entries p) (- 1) = Inr s"
      by (cases "store_loop E (mode p) qs 0 (entries p) (- 1)")
         (auto simp: palette_generate_with_images_def Let_def)
    from assms seed loop r True q st
    have "resolve_fixed E (p\<lparr>fixedEntries := fes\<rparr>) (Some (length qs)) s (liq_create LiqResult ?w4)
        = (Success, p', w')"
      by (simp add: palette_generate_with_images_def Let_def)
    moreover have "reported (liq_create LiqResult ?w4) = reported w"
      using rep3 by (simp add: liq_create_def)
    ultimately show ?thesis unfolding fes_eq using st by blast
  qed
qed

lemma resolve_fixed_success:
  assumes "resolve_fixed E p lp s w = (Success, p', w')"
  shows "\<exists>s1 fes T mx unused.
           nonexact_loop (fixedEntries p) lp s = Inr s1
         \<and> exact_loop E (mode p) (fixedEntries p) s1 = Inr (fes, T, mx)
         \<and> p' = p\<lparr>fixedEntries := fes, entries := T, numEntries := mx + 1\<rparr>
         \<and> unused_loop T (nat (mx + 1)) 0 0 = Inr unused
         \<and> reported w' = reported w @ [(mx + 1, int PALETTE_MAX_ENTRIES - (mx + 1) + unused)]"
  using assms
  by (auto simp: resolve_fixed_def Let_def liq_destroy_def split: sum.splits prod.splits)







text \<open>
  The table has to start without valid entries: \<^verbatim>\<open>palette_alloc\<close> does not
  initialise it, and a slot that is valid before the call and beyond everything the call
  writes stays valid above \<^verbatim>\<open>numEntries\<close>.
\<close>

lemma numEntries_stale_slot_example:
  "fst (palette_generate (sample_env sample_files (Some [px 1 2 3, px 4 5 6]))
          ((sample_palette ''p'' [sample_image ''a.png''] 256 [fixed_entry 0 True (px 0 0 0)])
             \<lparr>entries := stale_table\<rparr>)
          [] sample_world) = Success
   \<and> numEntries (fst (snd (palette_generate (sample_env sample_files (Some [px 1 2 3, px 4 5 6]))
          ((sample_palette ''p'' [sample_image ''a.png''] 256 [fixed_entry 0 True (px 0 0 0)])
             \<lparr>entries := stale_table\<rparr>)
          [] sample_world))) = 3
   \<and> valid (entries (fst (snd (palette_generate (sample_env sample_files (Some [px 1 2 3, px 4 5 6]))
          ((sample_palette ''p'' [sample_image ''a.png''] 256 [fixed_entry 0 True (px 0 0 0)])
             \<lparr>entries := stale_table\<rparr>)
          [] sample_world))) 200)"
  by code_simp

subsection \<open>Exact fixed entries\<close>

lemma place_exact_keeps:
  assumes s: "place_exact E m fe (T, mx) = Inr (fe', T', mx')"
    and v: "valid (T a)" and ne: "a \<noteq> index fe"
  shows "T' a = T a"
proof -
  let ?j = "first_free T PALETTE_MAX_ENTRIES 0"
  from place_exact_cases [OF s]
  have c: "(\<not> valid (T (index fe)) \<and> T' = T(index fe := fe'\<lparr>valid := True\<rparr>))
        \<or> (valid (T (index fe)) \<and> ?j < PALETTE_MAX_ENTRIES
            \<and> T' = T(?j := T (index fe), index fe := fe'\<lparr>valid := True\<rparr>))"
    by auto
  show ?thesis
  proof (cases "valid (T (index fe))")
    case False
    with c ne show ?thesis by auto
  next
    case True
    with c have jb: "?j < PALETTE_MAX_ENTRIES"
      and T': "T' = T(?j := T (index fe), index fe := fe'\<lparr>valid := True\<rparr>)" by blast+
    have "\<not> valid (T ?j)"
      using first_free_invalid [of T PALETTE_MAX_ENTRIES 0] jb by simp
    with v have "a \<noteq> ?j" by auto
    with ne show ?thesis unfolding T' by simp
  qed
qed

lemma place_exact_slot:
  assumes "place_exact E m fe (T, mx) = Inr (fe', T', mx')"
  shows "T' (index fe) = fe\<lparr>color := color_convert E m (color fe), valid := True\<rparr>"
  using place_exact_cases [OF assms] by auto

lemma exact_loop_keeps:
  "exact_loop E m fs (T, mx) = Inr (fes, T', mx') \<Longrightarrow> valid (T a) \<Longrightarrow>
   a \<notin> index ` set (filter exact fs) \<Longrightarrow> T' a = T a"
proof (induction fs arbitrary: T mx fes)
  case Nil
  then show ?case by simp
next
  case (Cons fe fs)
  show ?case
  proof (cases "exact fe")
    case False
    with Cons.prems(1) obtain fes1 where r: "exact_loop E m fs (T, mx) = Inr (fes1, T', mx')"
      by (auto split: sum.splits)
    from Cons.prems(3) False have "a \<notin> index ` set (filter exact fs)" by simp
    from Cons.IH [OF r Cons.prems(2) this] show ?thesis .
  next
    case True
    with Cons.prems(1) obtain fe' T1 mx1 fes1 where s: "place_exact E m fe (T, mx) = Inr (fe', T1, mx1)"
      and r: "exact_loop E m fs (T1, mx1) = Inr (fes1, T', mx')"
      by (auto split: sum.splits)
    from Cons.prems(3) True have ne: "a \<noteq> index fe"
      and rest: "a \<notin> index ` set (filter exact fs)" by auto
    have k: "T1 a = T a" using s Cons.prems(2) ne by (rule place_exact_keeps)
    with Cons.prems(2) have "valid (T1 a)" by simp
    from Cons.IH [OF r this rest] k show ?thesis by simp
  qed
qed

lemma exact_loop_places:
  "exact_loop E m fs (T, mx) = Inr (fes, T', mx') \<Longrightarrow>
   distinct (map index (filter exact fs)) \<Longrightarrow>
   \<forall>fe\<in>set fs. exact fe \<longrightarrow>
     T' (index fe) = fe\<lparr>color := color_convert E m (color fe), valid := True\<rparr>"
proof (induction fs arbitrary: T mx fes)
  case Nil
  then show ?case by simp
next
  case (Cons fe fs)
  show ?case
  proof (cases "exact fe")
    case False
    with Cons.prems(1) obtain fes1 where r: "exact_loop E m fs (T, mx) = Inr (fes1, T', mx')"
      by (auto split: sum.splits)
    from Cons.prems(2) False have "distinct (map index (filter exact fs))" by simp
    from Cons.IH [OF r this] False show ?thesis by simp
  next
    case True
    with Cons.prems(1) obtain fe' T1 mx1 fes1 where s: "place_exact E m fe (T, mx) = Inr (fe', T1, mx1)"
      and r: "exact_loop E m fs (T1, mx1) = Inr (fes1, T', mx')"
      by (auto split: sum.splits)
    from Cons.prems(2) True have d: "distinct (map index (filter exact fs))"
      and fresh: "index fe \<notin> index ` set (filter exact fs)" by auto
    have slot: "T1 (index fe) = fe\<lparr>color := color_convert E m (color fe), valid := True\<rparr>"
      using s by (rule place_exact_slot)
    then have "valid (T1 (index fe))" by simp
    from exact_loop_keeps [OF r this fresh] slot
    have "T' (index fe) = fe\<lparr>color := color_convert E m (color fe), valid := True\<rparr>" by simp
    with Cons.IH [OF r d] show ?thesis by simp
  qed
qed

lemma filter_exact_seeded:
  "filter exact (map (seed_entry E m) fs) = filter exact fs"
  by (induction fs) (simp_all add: seed_entry_def)

text \<open>
  The branch with images: after a successful \<^verbatim>\<open>palette_generate_with_images\<close>,
  every exact fixed entry sits in its slot, converted and marked valid, when the exact
  entries have distinct slots.
\<close>

lemma exact_entries_with_images:
  assumes run: "palette_generate_with_images E p w = (Success, p', w')"
    and d: "distinct (map index (filter exact (fixedEntries p)))"
  shows "\<forall>fe\<in>set (fixedEntries p). exact fe \<longrightarrow>
     entries p' (index fe) = fe\<lparr>color := color_convert E (mode p) (color fe), valid := True\<rparr>"
proof -
  let ?fs = "map (seed_entry E (mode p)) (fixedEntries p)"
  let ?p1 = "p\<lparr>fixedEntries := fst (seed_fixed E (mode p) (fixedEntries p)
                       \<lparr>hist_fixed = [], hist_rows = []\<rparr>)\<rparr>"
  have fs1: "fixedEntries ?p1 = ?fs" by (simp add: seed_fixed_result)
  from with_images_success [OF run] obtain lp s w3 where
    res: "resolve_fixed E ?p1 lp s w3 = (Success, p', w')" by blast
  from resolve_fixed_success [OF res] obtain s1 fes T mx where
    ex: "exact_loop E (mode ?p1) (fixedEntries ?p1) s1 = Inr (fes, T, mx)"
    and p': "p' = ?p1\<lparr>fixedEntries := fes, entries := T, numEntries := mx + 1\<rparr>"
    by blast
  obtain T1 mx1 where s1: "s1 = (T1, mx1)" by (cases s1)
  have ex': "exact_loop E (mode p) ?fs (T1, mx1) = Inr (fes, T, mx)"
    using ex unfolding fs1 s1 by simp
  have d': "distinct (map index (filter exact ?fs))"
    using d by (simp add: filter_exact_seeded)
  have placed: "\<forall>fe\<in>set ?fs. exact fe \<longrightarrow>
     T (index fe) = fe\<lparr>color := color_convert E (mode p) (color fe), valid := True\<rparr>"
    using ex' d' by (rule exact_loop_places)
  have e: "entries p' = T" by (simp add: p')
  show ?thesis
  proof (intro ballI impI)
    fix fe assume m: "fe \<in> set (fixedEntries p)" and x: "exact fe"
    then have "seed_entry E (mode p) fe = fe" by (simp add: seed_entry_def)
    with m have "fe \<in> set ?fs" by force
    with placed x show "entries p' (index fe)
        = fe\<lparr>color := color_convert E (mode p) (color fe), valid := True\<rparr>"
      unfolding e by blast
  qed
qed


text \<open>
  C1 fails on the code in the branch without images, which lacks both steps: the fixed
  entry is copied as it is, so an exact entry that arrives unconverted and not marked
  valid stays so in the table, and \<^verbatim>\<open>palette_generate\<close> still succeeds.
\<close>

theorem exact_entry_without_images:
  "fst (palette_generate (sample_env sample_files None)
          (sample_palette ''p'' [] 256 [fixed_entry 0 True (px 0 0 0)]) [] sample_world)
   = Success
   \<and> \<not> valid (entries (fst (snd (palette_generate (sample_env sample_files None)
          (sample_palette ''p'' [] 256 [fixed_entry 0 True (px 0 0 0)]) [] sample_world))) 0)
   \<and> color (entries (fst (snd (palette_generate (sample_env sample_files None)
          (sample_palette ''p'' [] 256 [fixed_entry 0 True (px 0 0 0)]) [] sample_world))) 0)
     \<noteq> color_convert (sample_env sample_files None) COLOR_MODE_1555_GBGR
          (color (fixed_entry 0 True (px 0 0 0)))"
  by (simp add: palette_generate_def sample_palette_def numFixedEntries_def numImages_def
      fixed_entry_def PALETTE_MAX_ENTRIES_def sample_env_def sample_convert_def)

subsection \<open>Relocation keeps every colour\<close>

lemma place_nonexact_colors:
  assumes "place_nonexact fe lp (T, mx) = Inr (T', mx')"
  shows "valid_colors T' = valid_colors T
     \<or> (\<exists>j<PALETTE_MAX_ENTRIES. \<not> valid (T j) \<and> same_rgb (rgb (color fe)) (rgb (color (T j)))
           \<and> valid_colors T' = valid_colors T + {#color (T j)#})"
proof -
  from place_nonexact_cases [OF assms] obtain cnt where
    c: "(find_color T (rgb (color fe)) cnt 0 = Inr None \<and> T' = T \<and> mx' = mx)
           \<or> (\<exists>j. find_color T (rgb (color fe)) cnt 0 = Inr (Some j)
                 \<and> index fe < PALETTE_MAX_ENTRIES
                 \<and> T' = T(j := T (index fe), index fe := (T j)\<lparr>valid := True\<rparr>)
                 \<and> mx' = (if mx < int (index fe) then int (index fe) else mx))"
    by blast
  show ?thesis
  proof (cases "T' = T")
    case True
    then show ?thesis by simp
  next
    case False
    with c obtain j where f: "find_color T (rgb (color fe)) cnt 0 = Inr (Some j)"
      and ib: "index fe < PALETTE_MAX_ENTRIES"
      and T': "T' = T(j := T (index fe), index fe := (T j)\<lparr>valid := True\<rparr>)"
      by blast
    from find_color_Some [OF f] have jb: "j < PALETTE_MAX_ENTRIES"
      and same: "same_rgb (rgb (color fe)) (rgb (color (T j)))" by simp_all
    let ?T1 = "T(j := T (index fe))"
    have u1: "valid_colors ?T1 + cell (T j) = valid_colors T + cell (T (index fe))"
      by (rule valid_colors_update [OF jb])
    have occ: "?T1 (index fe) = T (index fe)" by simp
    have u2: "valid_colors T' + cell (T (index fe)) = valid_colors ?T1 + {#color (T j)#}"
      using valid_colors_update [OF ib, of ?T1 "(T j)\<lparr>valid := True\<rparr>"]
      unfolding T' occ by (simp add: cell_def)
    have "valid_colors T' + cell (T (index fe)) + cell (T j)
        = valid_colors T + cell (T (index fe)) + {#color (T j)#}"
      using u1 u2 by (simp add: ac_simps)
    then have eq: "valid_colors T' + cell (T j) = valid_colors T + {#color (T j)#}"
      by (simp add: ac_simps)
    show ?thesis
    proof (cases "valid (T j)")
      case True
      with eq have "valid_colors T' = valid_colors T" by (simp add: cell_def)
      then show ?thesis by simp
    next
      case False
      with eq have "valid_colors T' = valid_colors T + {#color (T j)#}" by (simp add: cell_def)
      with False jb same show ?thesis by blast
    qed
  qed
qed

lemma place_exact_colors:
  assumes "place_exact E m fe (T, mx) = Inr (fe', T', mx')"
  shows "valid_colors T' = valid_colors T + {#color_convert E m (color fe)#}"
proof -
  from place_exact_cases [OF assms] have fe': "fe' = fe\<lparr>color := color_convert E m (color fe)\<rparr>"
    and ib: "index fe < PALETTE_MAX_ENTRIES"
    and c: "(\<not> valid (T (index fe)) \<and> T' = T(index fe := fe'\<lparr>valid := True\<rparr>))
        \<or> (valid (T (index fe)) \<and> first_free T PALETTE_MAX_ENTRIES 0 < PALETTE_MAX_ENTRIES
            \<and> T' = T(first_free T PALETTE_MAX_ENTRIES 0 := T (index fe),
                     index fe := fe'\<lparr>valid := True\<rparr>))"
    by auto
  have cf: "cell (fe'\<lparr>valid := True\<rparr>) = {#color_convert E m (color fe)#}"
    by (simp add: cell_def fe')
  show ?thesis
  proof (cases "valid (T (index fe))")
    case False
    with c have T': "T' = T(index fe := fe'\<lparr>valid := True\<rparr>)" by blast
    from valid_colors_update [OF ib, of T "fe'\<lparr>valid := True\<rparr>"] False
    show ?thesis unfolding T' cf by (simp add: cell_def)
  next
    case True
    let ?j = "first_free T PALETTE_MAX_ENTRIES 0"
    from True c have jb: "?j < PALETTE_MAX_ENTRIES"
      and T': "T' = T(?j := T (index fe), index fe := fe'\<lparr>valid := True\<rparr>)" by blast+
    have free: "\<not> valid (T ?j)"
      using first_free_invalid [of T PALETTE_MAX_ENTRIES 0] jb by simp
    with True have ne: "?j \<noteq> index fe" by auto
    let ?T1 = "T(?j := T (index fe))"
    have u1: "valid_colors ?T1 = valid_colors T + {#color (T (index fe))#}"
      using valid_colors_update [OF jb, of T "T (index fe)"] free True by (simp add: cell_def)
    have occ: "?T1 (index fe) = T (index fe)" using ne by simp
    have u2: "valid_colors T' + {#color (T (index fe))#}
        = valid_colors ?T1 + {#color_convert E m (color fe)#}"
      using valid_colors_update [OF ib, of ?T1 "fe'\<lparr>valid := True\<rparr>"] True
      unfolding T' occ cf by (simp add: cell_def)
    show ?thesis using u1 u2 by simp
  qed
qed

lemma nonexact_loop_colors:
  "nonexact_loop fs lp (T, mx) = Inr (T', mx') \<Longrightarrow> valid_colors T \<subseteq># valid_colors T'"
proof (induction fs arbitrary: T mx)
  case Nil
  then show ?case by simp
next
  case (Cons fe fs)
  show ?case
  proof (cases "exact fe")
    case True
    with Cons.prems have "nonexact_loop fs lp (T, mx) = Inr (T', mx')" by simp
    then show ?thesis by (rule Cons.IH)
  next
    case False
    with Cons.prems obtain T1 mx1 where s: "place_nonexact fe lp (T, mx) = Inr (T1, mx1)"
      and r: "nonexact_loop fs lp (T1, mx1) = Inr (T', mx')"
      by (auto split: sum.splits)
    from place_nonexact_colors [OF s] have "valid_colors T \<subseteq># valid_colors T1" by auto
    also from r have "valid_colors T1 \<subseteq># valid_colors T'" by (rule Cons.IH)
    finally show ?thesis .
  qed
qed

lemma exact_loop_colors:
  "exact_loop E m fs (T, mx) = Inr (fes, T', mx') \<Longrightarrow>
   valid_colors T' =
     valid_colors T + mset (map (\<lambda>fe. color_convert E m (color fe)) (filter exact fs))"
proof (induction fs arbitrary: T mx fes)
  case Nil
  then show ?case by simp
next
  case (Cons fe fs)
  show ?case
  proof (cases "exact fe")
    case False
    with Cons.prems obtain fes1 where "exact_loop E m fs (T, mx) = Inr (fes1, T', mx')"
      by (auto split: sum.splits)
    from Cons.IH [OF this] False show ?thesis by simp
  next
    case True
    with Cons.prems obtain fe' T1 mx1 fes1 where s: "place_exact E m fe (T, mx) = Inr (fe', T1, mx1)"
      and r: "exact_loop E m fs (T1, mx1) = Inr (fes1, T', mx')"
      by (auto split: sum.splits)
    from place_exact_colors [OF s] Cons.IH [OF r] True show ?thesis by simp
  qed
qed


text \<open>
  While the placements stay inside the table, no valid colour is lost. A non-exact
  placement that succeeds keeps the multiset of valid colours, or adds the colour of the
  slot that matched (a slot that was not valid, with the fixed colour's red, green and
  blue). An exact placement that succeeds adds exactly the converted fixed colour to the
  multiset of valid colours; when the pinned slot was valid, its occupant is now at the
  first slot that was not valid, found by the scan from slot 0. Over a resolution in which
  every placement succeeds, every valid colour of the table the resolution started from is
  still a valid colour of the final table, and the final table holds the converted colours
  of the exact entries besides.
\<close>

lemma relocation_preserves_colors:
  "(place_nonexact fe lp (T, mx) = Inr (T1, mx1) \<longrightarrow>
      valid_colors T \<subseteq># valid_colors T1
      \<and> (valid_colors T1 = valid_colors T
         \<or> (\<exists>j<PALETTE_MAX_ENTRIES. \<not> valid (T j) \<and> same_rgb (rgb (color fe)) (rgb (color (T j)))
               \<and> valid_colors T1 = valid_colors T + {#color (T j)#})))
   \<and> (place_exact E m fe (T, mx) = Inr (fe2, T2, mx2) \<longrightarrow>
        valid_colors T2 = valid_colors T + {#color_convert E m (color fe)#}
        \<and> (valid (T (index fe)) \<longrightarrow>
              first_free T PALETTE_MAX_ENTRIES 0 < PALETTE_MAX_ENTRIES
              \<and> \<not> valid (T (first_free T PALETTE_MAX_ENTRIES 0))
              \<and> (\<forall>i<first_free T PALETTE_MAX_ENTRIES 0. valid (T i))
              \<and> T2 (first_free T PALETTE_MAX_ENTRIES 0) = T (index fe)))
   \<and> (nonexact_loop fs lp (T, mx) = Inr (T3, mx3)
        \<and> exact_loop E m fs (T3, mx3) = Inr (fes, T4, mx4) \<longrightarrow>
        valid_colors T \<subseteq># valid_colors T3
        \<and> valid_colors T4 =
            valid_colors T3 + mset (map (\<lambda>fe. color_convert E m (color fe)) (filter exact fs))
        \<and> valid_colors T \<subseteq># valid_colors T4)"
proof (intro conjI impI)
  assume s: "place_nonexact fe lp (T, mx) = Inr (T1, mx1)"
  from place_nonexact_colors [OF s]
  show c: "valid_colors T1 = valid_colors T
         \<or> (\<exists>j<PALETTE_MAX_ENTRIES. \<not> valid (T j) \<and> same_rgb (rgb (color fe)) (rgb (color (T j)))
               \<and> valid_colors T1 = valid_colors T + {#color (T j)#})" .
  then show "valid_colors T \<subseteq># valid_colors T1" by auto
next
  assume s: "place_exact E m fe (T, mx) = Inr (fe2, T2, mx2)"
  from place_exact_colors [OF s]
  show "valid_colors T2 = valid_colors T + {#color_convert E m (color fe)#}" .
next
  let ?j = "first_free T PALETTE_MAX_ENTRIES 0"
  assume s: "place_exact E m fe (T, mx) = Inr (fe2, T2, mx2)" and v: "valid (T (index fe))"
  from place_exact_cases [OF s] v have jb: "?j < PALETTE_MAX_ENTRIES"
    and T2: "T2 = T(?j := T (index fe), index fe := fe2\<lparr>valid := True\<rparr>)"
    by auto
  show "?j < PALETTE_MAX_ENTRIES" by (rule jb)
  show free: "\<not> valid (T ?j)"
    using first_free_invalid [of T PALETTE_MAX_ENTRIES 0] jb by simp
  show "\<forall>i<?j. valid (T i)"
    using first_free_prefix [of 0 _ T PALETTE_MAX_ENTRIES] by simp
  from free v have "?j \<noteq> index fe" by auto
  then show "T2 ?j = T (index fe)" unfolding T2 by simp
next
  assume a: "nonexact_loop fs lp (T, mx) = Inr (T3, mx3)
        \<and> exact_loop E m fs (T3, mx3) = Inr (fes, T4, mx4)"
  from a nonexact_loop_colors show sub: "valid_colors T \<subseteq># valid_colors T3" by blast
  from a exact_loop_colors
  show eq: "valid_colors T4 =
            valid_colors T3 + mset (map (\<lambda>fe. color_convert E m (color fe)) (filter exact fs))"
    by blast
  from sub eq show "valid_colors T \<subseteq># valid_colors T4"
    by (simp add: subset_mset.add_increasing2)
qed

lemma relocation_preserves_colors_example:
  "\<exists>fe2 T2 mx2.
      place_exact (sample_env sample_files None) COLOR_MODE_1555_GBGR
        (fixed_entry 0 True (px 0 0 0)) (occupied_table, 0) = Inr (fe2, T2, mx2)
    \<and> valid_colors T2 =
        valid_colors occupied_table
        + {#color_convert (sample_env sample_files None) COLOR_MODE_1555_GBGR
              (color (fixed_entry 0 True (px 0 0 0)))#}
    \<and> first_free occupied_table PALETTE_MAX_ENTRIES 0 = 1
    \<and> T2 1 = occupied_table 0"
proof -
  let ?E = "sample_env sample_files None"
  let ?fe = "fixed_entry 0 True (px 0 0 0)"
  have "case place_exact ?E COLOR_MODE_1555_GBGR ?fe (occupied_table, 0) of
          Inl f \<Rightarrow> False | Inr r \<Rightarrow> True"
    by code_simp
  then obtain fe2 T2 mx2 where
    r: "place_exact ?E COLOR_MODE_1555_GBGR ?fe (occupied_table, 0) = Inr (fe2, T2, mx2)"
    by (auto split: sum.splits)
  have v: "valid (occupied_table (index ?fe))"
    by (simp add: occupied_table_def fixed_entry_def)
  have ff: "first_free occupied_table PALETTE_MAX_ENTRIES 0 = 1"
    by code_simp
  have i0: "index ?fe = 0" by (simp add: fixed_entry_def)
  from relocation_preserves_colors [of ?fe None occupied_table 0 occupied_table 0 ?E
      COLOR_MODE_1555_GBGR fe2 T2 mx2 "[]" occupied_table 0 "[]" occupied_table 0] r v
  have "valid_colors T2 = valid_colors occupied_table
          + {#color_convert ?E COLOR_MODE_1555_GBGR (color ?fe)#}"
    and "T2 (first_free occupied_table PALETTE_MAX_ENTRIES 0) = occupied_table (index ?fe)"
    by simp_all
  with r ff i0 show ?thesis by auto
qed

subsection \<open>A table without a free slot\<close>

text \<open>
  The quantizer's colours go to the first slots of the table. When every slot of the table
  is valid, the scan for a free slot ends on \<open>PALETTE_MAX_ENTRIES\<close>, and the placement
  of an exact entry writes the occupant of its slot to
  \<^verbatim>\<open>entries[PALETTE_MAX_ENTRIES]\<close>, outside the table: line 489 does not test the
  index the scan ended on.
\<close>

lemma store_loop_closed:
  "i + length qs \<le> PALETTE_MAX_ENTRIES \<Longrightarrow>
   store_loop E m qs i T mx =
     Inr (\<lambda>j. if i \<le> j \<and> j < i + length qs
              then (T j)\<lparr>color := quantized_color E m (qs ! (j - i)), valid := True\<rparr> else T j,
          if qs = [] then mx else max mx (int (i + length qs) - 1))"
proof (induction qs arbitrary: i T mx)
  case Nil
  then show ?case by (auto intro!: ext)
next
  case (Cons c qs)
  let ?T1 = "T(i := (T i)\<lparr>color := quantized_color E m c, valid := True\<rparr>)"
  let ?mx1 = "if mx < int i then int i else mx"
  from Cons.prems have ib: "\<not> PALETTE_MAX_ENTRIES \<le> i" and b: "Suc i + length qs \<le> PALETTE_MAX_ENTRIES"
    by simp_all
  have tab: "(\<lambda>j. if Suc i \<le> j \<and> j < Suc i + length qs
              then (?T1 j)\<lparr>color := quantized_color E m (qs ! (j - Suc i)), valid := True\<rparr>
              else ?T1 j)
      = (\<lambda>j. if i \<le> j \<and> j < i + length (c # qs)
              then (T j)\<lparr>color := quantized_color E m ((c # qs) ! (j - i)), valid := True\<rparr>
              else T j)"
    by (rule ext) (auto simp: nth_Cons' Suc_diff_Suc)
  have mx: "(if qs = [] then ?mx1 else max ?mx1 (int (Suc i + length qs) - 1))
      = (if c # qs = [] then mx else max mx (int (i + length (c # qs)) - 1))"
    by (cases qs) auto
  have "store_loop E m (c # qs) i T mx = store_loop E m qs (Suc i) ?T1 ?mx1"
    using ib by simp
  also have "\<dots> = Inr (\<lambda>j. if Suc i \<le> j \<and> j < Suc i + length qs
              then (?T1 j)\<lparr>color := quantized_color E m (qs ! (j - Suc i)), valid := True\<rparr>
              else ?T1 j,
          if qs = [] then ?mx1 else max ?mx1 (int (Suc i + length qs) - 1))"
    by (rule Cons.IH [OF b])
  finally show ?case unfolding tab mx .
qed

lemma first_free_full:
  "(\<forall>i. j0 \<le> i \<and> i < j0 + k \<longrightarrow> valid (T i)) \<Longrightarrow> first_free T k j0 = j0 + k"
proof (induction k arbitrary: j0)
  case 0
  then show ?case by simp
next
  case (Suc k)
  from Suc.prems have v: "valid (T j0)" by simp
  have "first_free T k (Suc j0) = Suc j0 + k"
    using Suc.prems by (intro Suc.IH) simp
  with v show ?case by simp
qed

lemma place_exact_full:
  assumes "\<forall>i<PALETTE_MAX_ENTRIES. valid (T i)"
  shows "place_exact E m fe (T, mx) = Inl OutOfBounds"
proof -
  have "first_free T PALETTE_MAX_ENTRIES 0 = 0 + PALETTE_MAX_ENTRIES"
    by (rule first_free_full) (use assms in simp)
  with assms show ?thesis
    by (simp add: place_exact_def Let_def)
qed

lemma exact_loop_full:
  assumes "\<forall>i<PALETTE_MAX_ENTRIES. valid (T i)" and "\<exists>fe\<in>set fs. exact fe"
  shows "exact_loop E m fs (T, mx) = Inl OutOfBounds"
  using assms(2)
proof (induction fs)
  case Nil
  then show ?case by simp
next
  case (Cons fe fs)
  show ?case
  proof (cases "exact fe")
    case True
    then show ?thesis by (simp add: place_exact_full [OF assms(1)])
  next
    case False
    with Cons show ?thesis by simp
  qed
qed

lemma resolve_fixed_full:
  assumes "nonexact_loop (fixedEntries p) lp s = Inr (T, mx)"
    and "\<forall>i<PALETTE_MAX_ENTRIES. valid (T i)" and "\<exists>fe\<in>set (fixedEntries p). exact fe"
  shows "resolve_fixed E p lp s w = (Crash OutOfBounds, p, w)"
  by (simp add: resolve_fixed_def assms(1) exact_loop_full [OF assms(2,3)])

lemma find_color_first:
  "0 < k \<Longrightarrow> j < PALETTE_MAX_ENTRIES \<Longrightarrow> same_rgb c (rgb (color (T j))) \<Longrightarrow>
   find_color T c k j = Inr (Some j)"
  by (cases k) simp_all

lemma with_images_quantized:
  assumes ld: "1 < maxEntries p - count_exact (fixedEntries p)
             \<longrightarrow> (\<forall>img\<in>set (images p). image_load E img \<noteq> None)"
    and rows: "submitted_rows E p \<noteq> []"
    and q: "\<And>h a. liq_quantize E h a = Some qs"
    and st: "store_loop E (mode p) qs 0 (entries p) (- 1) = Inr s"
  shows "\<exists>w4. palette_generate_with_images E p w =
            resolve_fixed E (p\<lparr>fixedEntries := map (seed_entry E (mode p)) (fixedEntries p)\<rparr>)
              (Some (length qs)) s w4"
proof -
  let ?fes = "map (seed_entry E (mode p)) (fixedEntries p)"
  let ?cap = "maxEntries p - count_exact (fixedEntries p)"
  let ?w2 = "liq_create LiqHistogram (liq_create LiqAttr w)"
  let ?w3 = "if 1 < ?cap then ?w2\<lparr>loads := loads ?w2 @ images p\<rparr> else ?w2"
  obtain h0 where seed: "seed_fixed E (mode p) (fixedEntries p) \<lparr>hist_fixed = [], hist_rows = []\<rparr>
      = (?fes, h0)"
    by (simp add: seed_fixed_result)
  let ?h = "h0\<lparr>hist_rows := hist_rows h0 @ submitted_rows E p\<rparr>"
  have loop: "image_loop E (mode p) ?fes ?cap (images p) h0 False ?w2 =
      (Some (?h, submitted_rows E p \<noteq> []), ?w3)"
    by (rule image_loop_rows [OF ld])
  have "palette_generate_with_images E p w =
      resolve_fixed E (p\<lparr>fixedEntries := ?fes\<rparr>) (Some (length qs)) s
        (liq_create LiqResult (?w3\<lparr>quantized := quantized ?w3 @ [?h]\<rparr>))"
    using seed loop rows q st by (simp add: palette_generate_with_images_def Let_def)
  then show ?thesis by blast
qed

lemma crowded_length: "length crowded_colors = 255"
  by (simp add: crowded_colors_def)

lemma crowded_nonempty: "crowded_colors \<noteq> []"
  by (simp add: crowded_colors_def)

lemma submitted_rows_nonempty:
  assumes "1 < maxEntries p - count_exact (fixedEntries p)"
    and "img \<in> set (images p)" and "image_load E img = Some data"
    and "c \<in> set data" and "\<not> is_exact_fixed_color (fixedEntries p) c"
  shows "submitted_rows E p \<noteq> []"
proof -
  have "c \<in> set (surviving_pixels (fixedEntries p)
            (case image_load E img of None \<Rightarrow> [] | Some data \<Rightarrow> data))"
    using assms(3,4,5) by (simp add: surviving_pixels_def)
  then have "surviving_pixels (fixedEntries p)
            (case image_load E img of None \<Rightarrow> [] | Some data \<Rightarrow> data) \<noteq> []"
    by auto
  with assms(1,2) show ?thesis
    by (auto simp: submitted_rows_def filter_empty_conv)
qed

text \<open>
  C6 fails on the code. The image has 255 colours, among them (1, 0, 0) and black, and the
  quantizer returns these 255 colours, (1, 0, 0) first; the fixed entries are a non-exact
  (1, 0, 0) pinned to slot 255, a non-exact black pinned to slot 0 and an exact colour
  pinned to slot 5. The swap for the first entry moves the never-written slot 255 to
  slot 0; the search for black does not look at \<^verbatim>\<open>valid\<close>, matches that slot
  and marks it valid. All 256 slots are valid now, so the scan at lines 481-487 ends on
  256 and line 489 copies the occupant of slot 5 to \<^verbatim>\<open>entries[256]\<close>: the
  displaced colour is in no slot of the table.
\<close>

theorem displaced_entry_written_outside_table:
  "fst (palette_generate (sample_env crowded_files (Some crowded_colors))
          (sample_palette ''p'' [sample_image ''c.png''] 256
             [fixed_entry 255 False (px 1 0 0), fixed_entry 0 False (px 0 0 0),
              fixed_entry 5 True (px 9 9 9)])
          [] sample_world) = Crash OutOfBounds"
proof -
  let ?E = "sample_env crowded_files (Some crowded_colors)"
  let ?fs = "[fixed_entry 255 False (px 1 0 0), fixed_entry 0 False (px 0 0 0),
              fixed_entry 5 True (px 9 9 9)]"
  let ?p = "sample_palette ''p'' [sample_image ''c.png''] 256 ?fs"
  let ?m = "COLOR_MODE_1555_GBGR"
  let ?Ts = "\<lambda>j. if j < 255
              then empty_slot\<lparr>color := quantized_color ?E ?m (crowded_colors ! j),
                     valid := True\<rparr> else empty_slot"
  have gen: "palette_generate ?E ?p [] sample_world = palette_generate_with_images ?E ?p sample_world"
    by (simp add: palette_generate_def sample_palette_def numFixedEntries_def numImages_def)
  have md: "mode ?p = ?m" and en: "entries ?p = (\<lambda>i. empty_slot)" and fx: "fixedEntries ?p = ?fs"
    by (simp_all add: sample_palette_def)
  have ld: "1 < maxEntries ?p - count_exact (fixedEntries ?p)
             \<longrightarrow> (\<forall>img\<in>set (images ?p). image_load ?E img \<noteq> None)"
    by (simp add: sample_palette_def sample_env_def sample_image_def crowded_files_def)
  have rows: "submitted_rows ?E ?p \<noteq> []"
  proof (rule submitted_rows_nonempty)
    show "1 < maxEntries ?p - count_exact (fixedEntries ?p)"
      by (simp add: sample_palette_def fixed_entry_def)
    show "sample_image ''c.png'' \<in> set (images ?p)"
      by (simp add: sample_palette_def)
    show "image_load ?E (sample_image ''c.png'') = Some crowded_colors"
      by (simp add: sample_env_def sample_image_def crowded_files_def)
    show "px 1 0 0 \<in> set crowded_colors"
      by (simp add: crowded_colors_def)
    show "\<not> is_exact_fixed_color (fixedEntries ?p) (px 1 0 0)"
      by (simp add: is_exact_fixed_color_def sample_palette_def fixed_entry_def same_rgb_def px_def)
  qed
  have q: "\<And>h a. liq_quantize ?E h a = Some crowded_colors"
    by (simp add: sample_env_def)
  have st: "store_loop ?E (mode ?p) crowded_colors 0 (entries ?p) (- 1) = Inr (?Ts, 254)"
    unfolding md en
    by (subst store_loop_closed)
      (simp_all add: crowded_length crowded_nonempty PALETTE_MAX_ENTRIES_def cong: if_cong)
  from with_images_quantized [OF ld rows q st, of sample_world] obtain w4 where
    run: "palette_generate_with_images ?E ?p sample_world =
            resolve_fixed ?E (?p\<lparr>fixedEntries := map (seed_entry ?E (mode ?p)) (fixedEntries ?p)\<rparr>)
              (Some (length crowded_colors)) (?Ts, 254) w4"
    by blast
  let ?fes = "map (seed_entry ?E ?m) ?fs"
  let ?T1 = "?Ts(0 := empty_slot, 255 := (?Ts 0)\<lparr>valid := True\<rparr>)"
  let ?T2 = "?T1(0 := empty_slot\<lparr>valid := True\<rparr>)"
  have c0: "crowded_colors ! 0 = px 1 0 0" by (simp add: crowded_colors_def)
  have s1: "place_nonexact (seed_entry ?E ?m (fixed_entry 255 False (px 1 0 0))) (Some 255) (?Ts, 254)
      = Inr (?T1, 255)"
    by (simp add: place_nonexact_def find_color_first seed_entry_def fixed_entry_def
        PALETTE_MAX_ENTRIES_def crowded_length c0 quantized_color_def same_rgb_def px_def
        sample_env_def sample_convert_def Let_def empty_slot_def)
  have s2: "place_nonexact (seed_entry ?E ?m (fixed_entry 0 False (px 0 0 0))) (Some 255) (?T1, 255)
      = Inr (?T2, 255)"
    by (simp add: place_nonexact_def find_color_first seed_entry_def fixed_entry_def
        PALETTE_MAX_ENTRIES_def same_rgb_def px_def
        sample_env_def sample_convert_def Let_def empty_slot_def)
  have ne: "nonexact_loop ?fes (Some 255) (?Ts, 254) = Inr (?T2, 255)"
    using s1 s2 by (simp add: seed_entry_def fixed_entry_def)
  have full: "\<forall>i<PALETTE_MAX_ENTRIES. valid (?T2 i)"
    by (auto simp: PALETTE_MAX_ENTRIES_def crowded_length empty_slot_def)
  have ex: "\<exists>fe\<in>set ?fes. exact fe"
    by (simp add: seed_entry_def fixed_entry_def)
  let ?p1 = "?p\<lparr>fixedEntries := ?fes\<rparr>"
  have r: "resolve_fixed ?E ?p1 (Some 255) (?Ts, 254) w4 = (Crash OutOfBounds, ?p1, w4)"
    by (rule resolve_fixed_full [where T = ?T2 and mx = 255]) (use ne full ex in simp_all)
  note gen
  also have "palette_generate_with_images ?E ?p sample_world =
      resolve_fixed ?E ?p1 (Some 255) (?Ts, 254) w4"
    using run unfolding md fx crowded_length .
  also note r
  finally show ?thesis by (simp only: fst_conv)
qed

subsection \<open>Palettes without images\<close>






subsection \<open>A failed image load\<close>

text \<open>
  C8. When the images are processed (the quantization capacity exceeds 1), the images
  before some image load and that image does not, then
  \<^verbatim>\<open>palette_generate_with_images\<close> fails with \<open>ImageLoadFailure\<close>; the entry
  table and \<^verbatim>\<open>numEntries\<close> are as they were; the images handed to the loader are
  those up to the failing one and none after it; the quantizer was not called; and every
  libimagequant object created by the call has been destroyed. \<^verbatim>\<open>palette_generate\<close>
  returns that failure as it is.
\<close>

theorem load_failure_aborts:
  assumes "images p = pre @ img # post"
    and "\<forall>x\<in>set pre. image_load E x \<noteq> None"
    and "image_load E img = None"
    and "1 < maxEntries p - count_exact (fixedEntries p)"
  shows "\<exists>p' w'. palette_generate_with_images E p w = (Failure ImageLoadFailure, p', w')
           \<and> entries p' = entries p \<and> numEntries p' = numEntries p
           \<and> loads w' = loads w @ pre @ [img]
           \<and> quantized w' = quantized w \<and> reported w' = reported w
           \<and> live w' = live w
           \<and> (palette_name p \<noteq> ''xlibc'' \<and> palette_name p \<noteq> ''rgb332'' \<and> \<not> automatic p
                \<and> numFixedEntries p \<le> maxEntries p
              \<longrightarrow> palette_generate E p converts w = (Failure ImageLoadFailure, p', w'))"
proof -
  let ?fes = "map (seed_entry E (mode p)) (fixedEntries p)"
  let ?cap = "maxEntries p - count_exact (fixedEntries p)"
  let ?w2 = "liq_create LiqHistogram (liq_create LiqAttr w)"
  let ?w' = "liq_destroy LiqAttr (liq_destroy LiqHistogram (?w2\<lparr>loads := loads ?w2 @ pre @ [img]\<rparr>))"
  let ?p1 = "p\<lparr>fixedEntries := ?fes\<rparr>"
  obtain h0 where seed: "seed_fixed E (mode p) (fixedEntries p) \<lparr>hist_fixed = [], hist_rows = []\<rparr>
      = (?fes, h0)"
    by (simp add: seed_fixed_result)
  have loop: "image_loop E (mode p) ?fes ?cap (images p) h0 False ?w2 = (None, ?w')"
    unfolding assms(1) by (rule image_loop_failed [OF assms(4) assms(2) assms(3)])
  have run: "palette_generate_with_images E p w = (Failure ImageLoadFailure, ?p1, ?w')"
    using seed loop by (simp add: palette_generate_with_images_def Let_def)
  have wf: "loads ?w' = loads w @ pre @ [img]" "quantized ?w' = quantized w"
    "reported ?w' = reported w" "live ?w' = live w"
    by (simp_all add: liq_create_def liq_destroy_def)
  have ni: "0 < numImages p"
    using assms(1) by (simp add: numImages_def)
  have gen: "palette_name p \<noteq> ''xlibc'' \<and> palette_name p \<noteq> ''rgb332'' \<and> \<not> automatic p
                \<and> numFixedEntries p \<le> maxEntries p
              \<longrightarrow> palette_generate E p converts w = (Failure ImageLoadFailure, ?p1, ?w')"
    using run ni by (simp add: palette_generate_def)
  from run wf gen show ?thesis by simp
qed

theorem load_failure_aborts_witness:
  "\<exists>p' w'. palette_generate (sample_env sample_files (Some [px 1 2 3, px 4 5 6]))
        (sample_palette ''p'' [sample_image ''a.png'', sample_image ''missing.png'',
                               sample_image ''a.png''] 256 [fixed_entry 0 True (px 0 0 0)])
        [] sample_world = (Failure ImageLoadFailure, p', w')
     \<and> entries p' = (\<lambda>i. empty_slot)
     \<and> loads w' = [sample_image ''a.png'', sample_image ''missing.png'']
     \<and> quantized w' = [] \<and> live w' = []"
proof -
  let ?E = "sample_env sample_files (Some [px 1 2 3, px 4 5 6])"
  let ?p = "sample_palette ''p'' [sample_image ''a.png'', sample_image ''missing.png'',
                               sample_image ''a.png''] 256 [fixed_entry 0 True (px 0 0 0)]"
  have h: "images ?p = [sample_image ''a.png''] @ sample_image ''missing.png'' # [sample_image ''a.png'']"
    "\<forall>x\<in>set [sample_image ''a.png'']. image_load ?E x \<noteq> None"
    "image_load ?E (sample_image ''missing.png'') = None"
    "1 < maxEntries ?p - count_exact (fixedEntries ?p)"
    by (simp_all add: sample_palette_def sample_env_def sample_image_def sample_files_def
        fixed_entry_def)
  have g: "palette_name ?p \<noteq> ''xlibc'' \<and> palette_name ?p \<noteq> ''rgb332'' \<and> \<not> automatic ?p
                \<and> numFixedEntries ?p \<le> maxEntries ?p"
    by (simp add: sample_palette_def numFixedEntries_def)
  have t: "entries ?p = (\<lambda>i. empty_slot)" by (simp add: sample_palette_def)
  from load_failure_aborts [OF h, of sample_world "[]"] g t
  show ?thesis by (auto simp: sample_world_def)
qed

subsection \<open>A fixed colour the quantizer did not return\<close>

lemma nonexact_loop_append:
  "nonexact_loop (xs @ ys) lp s =
     (case nonexact_loop xs lp s of Inl f \<Rightarrow> Inl f | Inr s' \<Rightarrow> nonexact_loop ys lp s')"
proof (induction xs arbitrary: s)
  case Nil
  then show ?case by simp
next
  case (Cons x xs)
  then show ?case by (simp split: sum.splits)
qed

lemma exact_loop_skip:
  "\<not> exact fe \<Longrightarrow>
   exact_loop E m (pre @ fe # post) s =
     (case exact_loop E m (pre @ post) s of
        Inl f \<Rightarrow> Inl f
      | Inr (fes, s') \<Rightarrow> Inr (take (length pre) fes @ fe # drop (length pre) fes, s'))"
proof (induction pre arbitrary: s)
  case Nil
  then show ?case by (simp split: sum.splits prod.splits)
next
  case (Cons x pre)
  show ?case
  proof (cases "exact x")
    case False
    then show ?thesis
      by (simp add: Cons.IH [OF Cons.prems] split: sum.splits prod.splits)
  next
    case True
    then show ?thesis
      by (simp add: Cons.IH [OF Cons.prems] split: sum.splits prod.splits)
  qed
qed

text \<open>
  Straight after the quantizer's colours are stored, the slots the search runs over hold
  the conversions of those colours, in order.
\<close>

lemma store_loop_slots:
  "store_loop E m qs i T mx = Inr (T', mx') \<Longrightarrow>
   (\<forall>j. i \<le> j \<and> j < i + length qs \<longrightarrow> color (T' j) = quantized_color E m (qs ! (j - i)))
   \<and> (\<forall>j. j < i \<longrightarrow> T' j = T j)"
proof (induction qs arbitrary: i T mx)
  case Nil
  then show ?case by auto
next
  case (Cons c qs)
  let ?T1 = "T(i := (T i)\<lparr>color := quantized_color E m c, valid := True\<rparr>)"
  let ?mx1 = "if mx < int i then int i else mx"
  from Cons.prems have run: "store_loop E m qs (Suc i) ?T1 ?mx1 = Inr (T', mx')"
    by (auto split: if_splits)
  from Cons.IH [OF run]
  have later: "\<forall>j. Suc i \<le> j \<and> j < Suc i + length qs
                 \<longrightarrow> color (T' j) = quantized_color E m (qs ! (j - Suc i))"
    and before: "\<forall>j. j < Suc i \<longrightarrow> T' j = ?T1 j"
    by simp_all
  have a: "\<forall>j. i \<le> j \<and> j < i + length (c # qs)
             \<longrightarrow> color (T' j) = quantized_color E m ((c # qs) ! (j - i))"
  proof (intro allI impI)
    fix j assume j: "i \<le> j \<and> j < i + length (c # qs)"
    show "color (T' j) = quantized_color E m ((c # qs) ! (j - i))"
    proof (cases "j = i")
      case True
      with before show ?thesis by simp
    next
      case False
      with j have "Suc i \<le> j \<and> j < Suc i + length qs" by simp
      with later have "color (T' j) = quantized_color E m (qs ! (j - Suc i))" by blast
      moreover from False j have "(c # qs) ! (j - i) = qs ! (j - Suc i)"
        by (simp add: nth_Cons')
      ultimately show ?thesis by simp
    qed
  qed
  have b: "\<forall>j. j < i \<longrightarrow> T' j = T j"
    using before by simp
  from a b show ?case by blast
qed

lemma stored_table_unmatched:
  assumes "store_loop E m qs 0 T0 (- 1) = Inr (T, mx)"
    and "\<forall>q\<in>set qs. \<not> same_rgb c (rgb (quantized_color E m q))"
  shows "\<forall>j<length qs. \<not> same_rgb c (rgb (color (T j)))"
proof (intro allI impI)
  fix j assume j: "j < length qs"
  from store_loop_slots [OF assms(1)] j
  have "color (T j) = quantized_color E m (qs ! j)" by simp
  with assms(2) j show "\<not> same_rgb c (rgb (color (T j)))" by simp
qed

lemma place_nonexact_unmatched:
  assumes "cnt \<le> PALETTE_MAX_ENTRIES"
    and "\<forall>j<cnt. \<not> same_rgb (rgb (color fe)) (rgb (color (T j)))"
  shows "place_nonexact fe (Some cnt) (T, mx) = Inr (T, mx)"
proof -
  have "find_color T (rgb (color fe)) cnt 0 = Inr None"
    by (rule find_color_None) (use assms in simp_all)
  then show ?thesis by (simp add: place_nonexact_def)
qed

lemma nonexact_loop_skip:
  assumes ne: "\<not> exact fe" and cb: "cnt \<le> PALETTE_MAX_ENTRIES"
    and pre: "nonexact_loop pre (Some cnt) s = Inr (T, mx)"
    and un: "\<forall>j<cnt. \<not> same_rgb (rgb (color fe)) (rgb (color (T j)))"
  shows "nonexact_loop (pre @ fe # post) (Some cnt) s = nonexact_loop (pre @ post) (Some cnt) s"
  using ne pre by (simp add: nonexact_loop_append place_nonexact_unmatched [OF cb un])

lemma resolve_fixed_skip:
  assumes ne: "\<not> exact fe"
    and loop: "nonexact_loop (pre @ fe # post) lp s = nonexact_loop (pre @ post) lp s"
  shows "fst (resolve_fixed E (p\<lparr>fixedEntries := pre @ fe # post\<rparr>) lp s w)
           = fst (resolve_fixed E (p\<lparr>fixedEntries := pre @ post\<rparr>) lp s w)
       \<and> entries (fst (snd (resolve_fixed E (p\<lparr>fixedEntries := pre @ fe # post\<rparr>) lp s w)))
           = entries (fst (snd (resolve_fixed E (p\<lparr>fixedEntries := pre @ post\<rparr>) lp s w)))
       \<and> numEntries (fst (snd (resolve_fixed E (p\<lparr>fixedEntries := pre @ fe # post\<rparr>) lp s w)))
           = numEntries (fst (snd (resolve_fixed E (p\<lparr>fixedEntries := pre @ post\<rparr>) lp s w)))"
proof (cases "nonexact_loop (pre @ post) lp s")
  case (Inl f)
  then show ?thesis by (simp add: resolve_fixed_def loop)
next
  case (Inr s1)
  show ?thesis
  proof (cases "exact_loop E (mode p) (pre @ post) s1")
    case (Inl f)
    then show ?thesis
      by (simp add: resolve_fixed_def loop Inr exact_loop_skip [OF ne])
  next
    case r: (Inr r)
    obtain fes T mx where "r = (fes, T, mx)" by (cases r)
    with r show ?thesis
      by (simp add: resolve_fixed_def loop Inr exact_loop_skip [OF ne] Let_def split: sum.splits)
  qed
qed

text \<open>
  Let the resolution reach a non-exact fixed entry (already converted by the seeding
  loop) in the state \<open>(T, maxIndex)\<close>, with a result palette of \<open>cnt\<close> colours, and let
  no entry among \<^verbatim>\<open>entries[0..cnt)\<close>, which the search runs over, have its red, green
  and blue. Then the step for that entry changes neither the table nor
  \<^verbatim>\<open>maxIndex\<close> and raises nothing, the loop goes on as if the entry were not in the
  list, and the status, the table and \<^verbatim>\<open>numEntries\<close> the resolution ends with are
  those it ends with when the entry is left out: no write to the pinned slot, no error
  and no status of its own.
\<close>

lemma unmatched_fixed_color_left_unresolved:
  assumes "\<not> exact fe" and "cnt \<le> PALETTE_MAX_ENTRIES"
    and "nonexact_loop pre (Some cnt) s = Inr (T, maxIndex)"
    and "\<forall>j<cnt. \<not> same_rgb (rgb (color fe)) (rgb (color (T j)))"
  shows "place_nonexact fe (Some cnt) (T, maxIndex) = Inr (T, maxIndex)
       \<and> nonexact_loop (pre @ fe # post) (Some cnt) s = nonexact_loop (pre @ post) (Some cnt) s
       \<and> fst (resolve_fixed E (p\<lparr>fixedEntries := pre @ fe # post\<rparr>) (Some cnt) s w)
           = fst (resolve_fixed E (p\<lparr>fixedEntries := pre @ post\<rparr>) (Some cnt) s w)
       \<and> entries (fst (snd (resolve_fixed E (p\<lparr>fixedEntries := pre @ fe # post\<rparr>) (Some cnt) s w)))
           = entries (fst (snd (resolve_fixed E (p\<lparr>fixedEntries := pre @ post\<rparr>) (Some cnt) s w)))
       \<and> numEntries (fst (snd (resolve_fixed E (p\<lparr>fixedEntries := pre @ fe # post\<rparr>) (Some cnt) s w)))
           = numEntries (fst (snd (resolve_fixed E (p\<lparr>fixedEntries := pre @ post\<rparr>) (Some cnt) s w)))"
proof -
  have a: "place_nonexact fe (Some cnt) (T, maxIndex) = Inr (T, maxIndex)"
    using assms(2,4) by (rule place_nonexact_unmatched)
  have b: "nonexact_loop (pre @ fe # post) (Some cnt) s = nonexact_loop (pre @ post) (Some cnt) s"
    using assms by (rule nonexact_loop_skip)
  from a b resolve_fixed_skip [OF assms(1) b] show ?thesis by simp
qed

lemma unmatched_fixed_color_left_unresolved_example:
  "place_nonexact (fixed_entry 1 False (px 9 9 9)) (Some 2) (quantized_table, 1)
     = Inr (quantized_table, 1)
   \<and> fst (resolve_fixed (sample_env sample_files None)
            ((sample_palette ''p'' [] 256 [])\<lparr>fixedEntries := [] @ fixed_entry 1 False (px 9 9 9) # []\<rparr>)
            (Some 2) (quantized_table, 1) sample_world)
     = fst (resolve_fixed (sample_env sample_files None)
            ((sample_palette ''p'' [] 256 [])\<lparr>fixedEntries := [] @ []\<rparr>)
            (Some 2) (quantized_table, 1) sample_world)
   \<and> fst (palette_generate (sample_env sample_files (Some [px 1 2 3, px 4 5 6]))
          (sample_palette ''p'' [sample_image ''a.png''] 256 [fixed_entry 1 False (px 9 9 9)])
          [] sample_world) = Success"
proof -
  let ?fe = "fixed_entry 1 False (px 9 9 9)"
  have h: "\<not> exact ?fe" "2 \<le> PALETTE_MAX_ENTRIES"
    "nonexact_loop [] (Some 2) (quantized_table, 1) = Inr (quantized_table, 1)"
    "\<forall>j<2. \<not> same_rgb (rgb (color ?fe)) (rgb (color (quantized_table j)))"
    by (simp_all add: fixed_entry_def PALETTE_MAX_ENTRIES_def quantized_table_def same_rgb_def
        px_def empty_slot_def less_2_cases_iff)
  have run: "fst (palette_generate (sample_env sample_files (Some [px 1 2 3, px 4 5 6]))
          (sample_palette ''p'' [sample_image ''a.png''] 256 [fixed_entry 1 False (px 9 9 9)])
          [] sample_world) = Success"
    by code_simp
  from unmatched_fixed_color_left_unresolved [OF h, of "[]" "sample_env sample_files None"
      "sample_palette ''p'' [] 256 []" sample_world] run
  show ?thesis by simp
qed

text \<open>
  C9 fails on the code. The image has the colours (1, 2, 3) and (4, 5, 6) and the
  quantizer returns these two. The fixed entries are a non-exact (1, 2, 3) pinned to
  slot 3 and a non-exact black pinned to slot 4, so black is not among the quantizer's
  colours. The swap for the first entry moves the never-written slot 3 to slot 0. The
  search for black runs over \<^verbatim>\<open>entries[0..2)\<close> without looking at
  \<^verbatim>\<open>valid\<close> and matches that slot, whose colour bytes are zero; the swap writes
  it to slot 4 and marks it valid. The run succeeds with a valid slot 4 that holds the
  colour of a slot nothing was stored in, and \<^verbatim>\<open>numEntries = 5\<close>.
\<close>

theorem stale_slot_matched:
  "fst (palette_generate (sample_env plain_files (Some [px 1 2 3, px 4 5 6]))
          (sample_palette ''p'' [sample_image ''b.png''] 256
             [fixed_entry 3 False (px 1 2 3), fixed_entry 4 False (px 0 0 0)])
          [] sample_world) = Success
   \<and> filter (same_rgb (px 0 0 0)) [px 1 2 3, px 4 5 6] = []
   \<and> valid (entries (fst (snd (palette_generate (sample_env plain_files (Some [px 1 2 3, px 4 5 6]))
          (sample_palette ''p'' [sample_image ''b.png''] 256
             [fixed_entry 3 False (px 1 2 3), fixed_entry 4 False (px 0 0 0)])
          [] sample_world))) 4)
   \<and> color (entries (fst (snd (palette_generate (sample_env plain_files (Some [px 1 2 3, px 4 5 6]))
          (sample_palette ''p'' [sample_image ''b.png''] 256
             [fixed_entry 3 False (px 1 2 3), fixed_entry 4 False (px 0 0 0)])
          [] sample_world))) 4) = color empty_slot
   \<and> numEntries (fst (snd (palette_generate (sample_env plain_files (Some [px 1 2 3, px 4 5 6]))
          (sample_palette ''p'' [sample_image ''b.png''] 256
             [fixed_entry 3 False (px 1 2 3), fixed_entry 4 False (px 0 0 0)])
          [] sample_world))) = 5"
  by code_simp

subsection \<open>The result palette when nothing was quantized\<close>

lemma nonexact_loop_null:
  "\<exists>fe\<in>set fs. \<not> exact fe \<Longrightarrow> nonexact_loop fs None s = Inl NullDereference"
proof (induction fs)
  case Nil
  then show ?case by simp
next
  case (Cons fe fs)
  show ?case
  proof (cases "exact fe")
    case True
    with Cons show ?thesis by simp
  next
    case False
    then show ?thesis by (simp add: place_nonexact_def split: prod.splits)
  qed
qed

lemma resolve_fixed_null:
  assumes "\<exists>fe\<in>set (fixedEntries p). \<not> exact fe"
  shows "resolve_fixed E p None s w = (Crash NullDereference, p, w)"
  by (simp add: resolve_fixed_def nonexact_loop_null [OF assms])

text \<open>
  C10 fails on the code. One image whose pixels all equal the exact fixed colour submits
  nothing, so \<^verbatim>\<open>needquantize\<close> stays false and \<^verbatim>\<open>liqpalette\<close> stays null;
  the loop over the non-exact fixed entries then reads \<^verbatim>\<open>liqpalette->count\<close>.
\<close>

theorem null_result_palette_read:
  "fst (palette_generate (sample_env black_files (Some [px 1 2 3]))
          (sample_palette ''p'' [sample_image ''a.png''] 256
             [fixed_entry 0 True (px 0 0 0), fixed_entry 1 False (px 9 9 9)])
          [] sample_world)
   = Crash NullDereference"
  by code_simp


subsection \<open>Runs that submit nothing to the quantizer\<close>

text \<open>
  A run that submits no row and returns success has only exact fixed entries, never calls
  the quantizer, and ends with the table the placement of the exact entries gives on the
  table as it was: the table is derived from the fixed entries only.
\<close>

lemma seed_entry_exact:
  "\<forall>fe\<in>set fs. exact fe \<Longrightarrow> map (seed_entry E m) fs = fs"
  by (induction fs) (simp_all add: seed_entry_def)

lemma seed_entry_exact_iff: "exact (seed_entry E m fe) = exact fe"
  by (simp add: seed_entry_def)

lemma fixed_only_table:
  assumes ld: "1 < maxEntries p - count_exact (fixedEntries p)
             \<longrightarrow> (\<forall>img\<in>set (images p). image_load E img \<noteq> None)"
    and norows: "submitted_rows E p = []"
    and run: "palette_generate_with_images E p w = (Success, p', w')"
  shows "(\<forall>fe\<in>set (fixedEntries p). exact fe)
     \<and> quantized w' = quantized w
     \<and> (\<exists>mx. exact_loop E (mode p) (fixedEntries p) (entries p, - 1)
                = Inr (fixedEntries p', entries p', mx)
             \<and> numEntries p' = mx + 1)"
proof -
  let ?fes = "map (seed_entry E (mode p)) (fixedEntries p)"
  let ?p1 = "p\<lparr>fixedEntries := ?fes\<rparr>"
  from exact_pixels_excluded [OF ld, of w] run norows obtain w3 where
    q: "quantized w' = quantized w"
    and r: "resolve_fixed E ?p1 None (entries p, - 1) w3 = (Success, p', w')"
    by auto
  from resolve_fixed_success [OF r] obtain s1 fes T mx where
    ne: "nonexact_loop ?fes None (entries p, - 1) = Inr s1"
    and ex: "exact_loop E (mode p) ?fes s1 = Inr (fes, T, mx)"
    and p': "p' = ?p1\<lparr>fixedEntries := fes, entries := T, numEntries := mx + 1\<rparr>"
    by auto
  have allex: "\<forall>fe\<in>set (fixedEntries p). exact fe"
  proof (rule ccontr)
    assume "\<not> (\<forall>fe\<in>set (fixedEntries p). exact fe)"
    then have "\<exists>fe\<in>set ?fes. \<not> exact fe" by (simp add: seed_entry_exact_iff)
    from nonexact_loop_null [OF this, of "(entries p, - 1)"] ne show False by simp
  qed
  have fes: "?fes = fixedEntries p" using allex by (rule seed_entry_exact)
  have s1: "s1 = (entries p, - 1)" using ne by (rule nonexact_loop_null_result)
  have "exact_loop E (mode p) (fixedEntries p) (entries p, - 1)
      = Inr (fixedEntries p', entries p', mx)"
    using ex by (simp add: fes s1 p')
  moreover have "numEntries p' = mx + 1" by (simp add: p')
  ultimately show ?thesis using allex q by blast
qed

lemma fixed_only_table_example:
  "\<exists>p' w'. palette_generate_with_images (sample_env black_files (Some [px 1 2 3]))
        (sample_palette ''p'' [sample_image ''a.png''] 256 [fixed_entry 0 True (px 0 0 0)])
        sample_world = (Success, p', w')
     \<and> quantized w' = []
     \<and> (\<exists>mx. exact_loop (sample_env black_files (Some [px 1 2 3])) COLOR_MODE_1555_GBGR
                [fixed_entry 0 True (px 0 0 0)] (\<lambda>i. empty_slot, - 1)
                = Inr (fixedEntries p', entries p', mx)
             \<and> numEntries p' = mx + 1)"
proof -
  let ?E = "sample_env black_files (Some [px 1 2 3])"
  let ?p = "sample_palette ''p'' [sample_image ''a.png''] 256 [fixed_entry 0 True (px 0 0 0)]"
  obtain st p' w' where run: "palette_generate_with_images ?E ?p sample_world = (st, p', w')"
    by (cases "palette_generate_with_images ?E ?p sample_world")
  have "fst (palette_generate_with_images ?E ?p sample_world) = Success" by code_simp
  with run have st: "st = Success" by simp
  have ld: "1 < maxEntries ?p - count_exact (fixedEntries ?p)
             \<longrightarrow> (\<forall>img\<in>set (images ?p). image_load ?E img \<noteq> None)"
    by (simp add: sample_palette_def sample_env_def sample_image_def black_files_def)
  have rows: "submitted_rows ?E ?p = []"
    by code_simp
  from fixed_only_table [OF ld rows run [unfolded st]] run st
  show ?thesis by (auto simp: sample_world_def sample_palette_def)
qed

text \<open>
  C2 fails on the code. The two pixels of the image are black, the exact fixed colour, so
  both are filtered out, no row is submitted, \<^verbatim>\<open>needquantize\<close> stays false and the
  quantizer is not called. The table is then not derived from the fixed entries: the loop
  over the non-exact fixed entries reads \<^verbatim>\<open>liqpalette->count\<close> through the null
  \<^verbatim>\<open>liqpalette\<close> before any fixed entry is placed, and slot 0, where the exact
  entry belongs, is never written.
\<close>

theorem unquantized_resolution_crashes:
  "submitted_rows (sample_env black_files (Some [px 1 2 3]))
      (sample_palette ''p'' [sample_image ''a.png''] 256
         [fixed_entry 0 True (px 0 0 0), fixed_entry 1 False (px 9 9 9)]) = []
   \<and> fst (palette_generate (sample_env black_files (Some [px 1 2 3]))
      (sample_palette ''p'' [sample_image ''a.png''] 256
         [fixed_entry 0 True (px 0 0 0), fixed_entry 1 False (px 9 9 9)]) [] sample_world)
     = Crash NullDereference
   \<and> quantized (snd (snd (palette_generate (sample_env black_files (Some [px 1 2 3]))
      (sample_palette ''p'' [sample_image ''a.png''] 256
         [fixed_entry 0 True (px 0 0 0), fixed_entry 1 False (px 9 9 9)]) [] sample_world))) = []
   \<and> \<not> valid (entries (fst (snd (palette_generate (sample_env black_files (Some [px 1 2 3]))
      (sample_palette ''p'' [sample_image ''a.png''] 256
         [fixed_entry 0 True (px 0 0 0), fixed_entry 1 False (px 9 9 9)]) [] sample_world))) 0)"
  by code_simp

end
